theory Spec2Isabelle
  imports Complex_Main "HOL-Library.AList"
begin

section \<open>add_bit.py: values, exceptions, the outside world\<close>

text \<open>
  The program is a Python script. Its values are what \<^verbatim>\<open>json.loads\<close> produces: dicts,
  lists, strings, ints, floats, booleans and \<^verbatim>\<open>None\<close>. A dict is an association list in
  insertion order. A Python \<^verbatim>\<open>str\<close> is a \<^typ>\<open>string\<close> whose characters are read as
  the code points U+0000 to U+00FF; code points beyond that range are outside the model.
\<close>

datatype pyfloat = Finite rat | PosInf | NegInf | NaN

datatype json =
    JNull
  | JBool bool
  | JInt int
  | JFloat pyfloat
  | JStr string
  | JArr "json list"
  | JObj "(string \<times> json) list"

text \<open>Python's truth value of an object, as \<^verbatim>\<open>not bit[key]\<close> tests it.\<close>

fun truthy :: "json \<Rightarrow> bool" where
  "truthy JNull = False"
| "truthy (JBool b) = b"
| "truthy (JInt i) = (i \<noteq> 0)"
| "truthy (JFloat f) = (f \<noteq> Finite 0)"
| "truthy (JStr s) = (s \<noteq> [])"
| "truthy (JArr xs) = (xs \<noteq> [])"
| "truthy (JObj kvs) = (kvs \<noteq> [])"

text \<open>
  Every way a call can end: it returns, it raises an exception, or it raises
  \<^verbatim>\<open>SystemExit\<close> (which \<^verbatim>\<open>sys.exit\<close> does, and which \<^verbatim>\<open>except Exception\<close> does not catch).
\<close>

datatype exc =
    EOFError
  | CalledProcessError
  | JSONDecodeError
  | KeyError
  | TypeError
  | AttributeError
  | FileNotFoundError
  | UnicodeEncodeError
  | OSError
  | ValueError string
  | APIError

datatype exit_arg = Status int | Message string

datatype 'a result = Return 'a | Raise exc | SystemExit exit_arg

text \<open>
  The exit status the interpreter gives the process: 0 when the script runs to its end,
  1 after an uncaught exception (with a traceback), the integer of \<^verbatim>\<open>sys.exit(n)\<close>, and 1
  for \<^verbatim>\<open>SystemExit\<close> raised with a string, which is printed to standard error.
\<close>

fun exit_status :: "'a result \<Rightarrow> int" where
  "exit_status (Return x) = 0"
| "exit_status (Raise e) = 1"
| "exit_status (SystemExit (Status n)) = n"
| "exit_status (SystemExit (Message m)) = 1"

text \<open>
  The files the script touches: the store \<^verbatim>\<open>data/bits.json\<close> and the temporary files of
  \<^verbatim>\<open>tempfile.NamedTemporaryFile\<close>, numbered in the order of their creation.
\<close>

datatype path = BitsJson | TempFile nat

datatype event = Created path | EditorRan path | Unlinked path | Wrote path

text \<open>
  The mutable world: the file system, the lines still to come on standard input
  (\<^verbatim>\<open>input()\<close> raises \<^verbatim>\<open>EOFError\<close> when none is left), how many temporary files and
  editor runs there have been, and the file events so far, oldest first. Console output
  is not modelled.
\<close>

record world =
  files :: "path \<Rightarrow> string option"
  stdin :: "string list"
  temp_count :: nat
  editor_count :: nat
  events :: "event list"

datatype content_block = TextBlock string | ToolUseBlock json | OtherBlock

text \<open>
  What the script calls and does not define: the \<^verbatim>\<open>json\<close> module
  (\<^verbatim>\<open>json_dumps\<close> is \<^verbatim>\<open>json.dumps(x, indent=2, ensure_ascii=False)\<close>, \<^verbatim>\<open>json_loads\<close>
  gives \<^const>\<open>None\<close> for \<^verbatim>\<open>JSONDecodeError\<close>), the writing of a text to a new temporary file
  (\<^const>\<open>None\<close> when the text was written; otherwise the exception that \<^verbatim>\<open>f.write\<close> or the
  closing of the file raised, \<^verbatim>\<open>UnicodeEncodeError\<close> for a text the encoding of the locale
  cannot encode or \<^verbatim>\<open>OSError\<close>, and what had reached the file by then), the editor (the
  \<open>n\<close>-th run, given the file's text, exits with status 0 or not and leaves the file with
  a new text; it changes no other file), the environment variable \<^verbatim>\<open>ANTHROPIC_API_KEY\<close>,
  the reply of \<^verbatim>\<open>client.messages.create\<close> to the prompt (its content blocks, or an
  exception), the
  clock (\<^verbatim>\<open>int(time.time() * 1000)\<close> and the local year, month and day) and whether
  \<^verbatim>\<open>build_bits.py\<close>, run on the written store, exits with status 0.
\<close>

record env =
  json_loads :: "string \<Rightarrow> json option"
  json_dumps :: "json \<Rightarrow> string"
  temp_write :: "string \<Rightarrow> (exc \<times> string) option"
  editor :: "nat \<Rightarrow> string \<Rightarrow> bool \<times> string"
  api_key :: "string option"
  messages_create :: "string \<Rightarrow> exc + content_block list"
  time_ms :: int
  local_date :: "nat \<times> nat \<times> nat"
  build_bits :: "string \<Rightarrow> bool"

section \<open>Strings\<close>

definition nl :: string where
  "nl = [CHR 0x0A]"

text \<open>\<^verbatim>\<open>str.lower\<close> on the code points below 256: A-Z, and the Latin-1 capitals but U+00D7.\<close>

definition lower_char :: "char \<Rightarrow> char" where
  "lower_char c =
     (let n = (of_char c :: nat)
      in if (65 \<le> n \<and> n \<le> 90) \<or> (192 \<le> n \<and> n \<le> 222 \<and> n \<noteq> 215)
         then char_of (n + 32) else c)"

definition lower :: "string \<Rightarrow> string" where
  "lower s = map lower_char s"

text \<open>\<^verbatim>\<open>str.isspace\<close> on the code points below 256, the characters \<^verbatim>\<open>str.strip()\<close> removes.\<close>

definition is_space :: "char \<Rightarrow> bool" where
  "is_space c =
     (let n = (of_char c :: nat)
      in (9 \<le> n \<and> n \<le> 13) \<or> (28 \<le> n \<and> n \<le> 32) \<or> n = 133 \<or> n = 160)"

definition strip :: "string \<Rightarrow> string" where
  "strip s = rev (dropWhile is_space (rev (dropWhile is_space s)))"

fun join_nl :: "string list \<Rightarrow> string" where
  "join_nl [] = []"
| "join_nl [l] = l"
| "join_nl (l # ls) = l @ nl @ join_nl ls"

definition is_digit :: "char \<Rightarrow> bool" where
  "is_digit c = (let n = (of_char c :: nat) in 48 \<le> n \<and> n \<le> 57)"

text \<open>\<^verbatim>\<open>str(n)\<close> of an integer, as an f-string prints it.\<close>

fun digits :: "nat \<Rightarrow> string" where
  "digits n =
     (if n < 10 then [char_of (48 + n)] else digits (n div 10) @ [char_of (48 + n mod 10)])"

declare digits.simps [simp del]

definition str_int :: "int \<Rightarrow> string" where
  "str_int i = (if i < 0 then CHR ''-'' # digits (nat (- i)) else digits (nat i))"

text \<open>
  \<^verbatim>\<open>time.strftime("%Y-%m-%d")\<close> on the local date: the year in decimal, month and day
  padded to two digits.
\<close>

definition pad2 :: "nat \<Rightarrow> string" where
  "pad2 n = (if n < 10 then CHR ''0'' # digits n else digits n)"

definition strftime_ymd :: "nat \<times> nat \<times> nat \<Rightarrow> string" where
  "strftime_ymd ymd = (case ymd of (y, m, d) \<Rightarrow> digits y @ ''-'' @ pad2 m @ ''-'' @ pad2 d)"

section \<open>slugify\<close>

definition is_slug_char :: "char \<Rightarrow> bool" where
  "is_slug_char c =
     (let n = (of_char c :: nat) in (97 \<le> n \<and> n \<le> 122) \<or> (48 \<le> n \<and> n \<le> 57))"

text \<open>
  \<^verbatim>\<open>re.sub(r"[^a-z0-9]+", "-", text)\<close>: every maximal run of characters outside a-z and
  0-9 becomes one hyphen.
\<close>

function sub_runs :: "string \<Rightarrow> string" where
  "sub_runs [] = []"
| "sub_runs (c # cs) =
     (if is_slug_char c then c # sub_runs cs
      else CHR ''-'' # sub_runs (dropWhile (\<lambda>d. \<not> is_slug_char d) cs))"
  by pat_completeness auto
termination
  by (relation "measure length") (auto simp: less_Suc_eq_le length_dropWhile_le)

text \<open>
  \<^verbatim>\<open>re.sub(r"^-|-$", "", text)\<close>: a hyphen at the start is removed, and a hyphen at the
  end of what follows it. The text comes from \<^const>\<open>sub_runs\<close> and holds no newline, so
  \<^verbatim>\<open>$\<close> matches at the very end only.
\<close>

definition sub_edges :: "string \<Rightarrow> string" where
  "sub_edges s =
     (let s1 = (case s of [] \<Rightarrow> [] | c # cs \<Rightarrow> if c = CHR ''-'' then cs else s)
      in if s1 \<noteq> [] \<and> last s1 = CHR ''-'' then butlast s1 else s1)"

definition slugify :: "string \<Rightarrow> string" where
  "slugify text = take 50 (sub_edges (sub_runs (lower text)))"

section \<open>get_user_input\<close>

text \<open>
  The loop of \<^verbatim>\<open>get_user_input\<close>: the lines read before the first empty line or the end
  of the input, and the lines left on standard input after it.
\<close>

fun read_lines :: "string list \<Rightarrow> string list \<times> string list" where
  "read_lines [] = ([], [])"
| "read_lines (l # ls) =
     (if l = [] then ([], ls)
      else (case read_lines ls of (acc, rest) \<Rightarrow> (l # acc, rest)))"

definition get_user_input :: "world \<Rightarrow> string \<times> world" where
  "get_user_input w =
     (case read_lines (stdin w) of (ls, rest) \<Rightarrow> (join_nl ls, w\<lparr>stdin := rest\<rparr>))"

section \<open>structure_with_claude\<close>

definition prompt :: "string \<Rightarrow> string" where
  "prompt text =
     ''Structure the following freeform text into a bit (a short link-blog entry).'' @ nl @
     ''Extract or generate:'' @ nl @
     ''- A concise title'' @ nl @
     ''- The URL if one is present'' @ nl @
     ''- Any commentary/thoughts as content'' @ nl @
     ''- Relevant tags'' @ nl @
     ''- The source (via) if mentioned'' @ nl @
     nl @
     ''Text:'' @ nl @ text"

text \<open>The loop over \<^verbatim>\<open>message.content\<close>: the input of the first block of type tool_use.\<close>

fun first_tool_use :: "content_block list \<Rightarrow> json option" where
  "first_tool_use [] = None"
| "first_tool_use (ToolUseBlock inp # bs) = Some inp"
| "first_tool_use (b # bs) = first_tool_use bs"

definition structure_with_claude :: "env \<Rightarrow> string \<Rightarrow> json result" where
  "structure_with_claude E text =
     (case messages_create E (prompt text) of
        Inl e \<Rightarrow> Raise e
      | Inr content \<Rightarrow>
          (case first_tool_use content of
             Some inp \<Rightarrow> Return inp
           | None \<Rightarrow> Raise (ValueError ''Claude didn't return structured output'')))"

section \<open>open_in_editor\<close>

text \<open>A new temporary file on disk, holding the given text.\<close>

definition named_temp_file :: "string \<Rightarrow> world \<Rightarrow> path \<times> world" where
  "named_temp_file s w =
     (let p = TempFile (temp_count w)
      in (p, w\<lparr>files := (files w)(p \<mapsto> s),
               temp_count := Suc (temp_count w),
               events := events w @ [Created p]\<rparr>))"

text \<open>
  The \<^verbatim>\<open>with\<close> block:
  \<^verbatim>\<open>NamedTemporaryFile(mode="w", suffix=".json", delete=False, prefix="bit_")\<close> and the
  two writes. The file is made with \<^verbatim>\<open>delete=False\<close>, so when a write or the closing of
  the file raises, the exception leaves the block and the file stays on disk with what
  had reached it.
\<close>

definition create_temp :: "env \<Rightarrow> string \<Rightarrow> world \<Rightarrow> (exc + path) \<times> world" where
  "create_temp E s w =
     (case temp_write E s of
        None \<Rightarrow> (case named_temp_file s w of (p, w1) \<Rightarrow> (Inr p, w1))
      | Some (e, reached) \<Rightarrow> (case named_temp_file reached w of (p, w1) \<Rightarrow> (Inl e, w1)))"

text \<open>
  \<^verbatim>\<open>subprocess.run([editor, temp_path], check=True)\<close>: whether the editor exited with
  status 0, and the world once it has exited.
\<close>

definition run_editor :: "env \<Rightarrow> path \<Rightarrow> world \<Rightarrow> bool \<times> world" where
  "run_editor E p w =
     (case editor E (editor_count w) (case files w p of None \<Rightarrow> [] | Some s \<Rightarrow> s) of
        (ok, s') \<Rightarrow>
          (ok, w\<lparr>files := (files w)(p \<mapsto> s'),
                 editor_count := Suc (editor_count w),
                 events := events w @ [EditorRan p]\<rparr>))"

text \<open>\<^verbatim>\<open>input(...)\<close>: the next line of standard input, or \<^const>\<open>None\<close> for \<^verbatim>\<open>EOFError\<close>.\<close>

definition py_input :: "world \<Rightarrow> (string \<times> world) option" where
  "py_input w = (case stdin w of [] \<Rightarrow> None | l # ls \<Rightarrow> Some (l, w\<lparr>stdin := ls\<rparr>))"

text \<open>
  The \<^verbatim>\<open>finally\<close> clause: \<^verbatim>\<open>os.unlink(temp_path)\<close> runs however the body ended and keeps
  the body's outcome, unless the file is missing and \<^verbatim>\<open>os.unlink\<close> itself raises.
\<close>

definition finally_unlink :: "path \<Rightarrow> 'a result \<times> world \<Rightarrow> 'a result \<times> world" where
  "finally_unlink p rw =
     (case rw of (r, w) \<Rightarrow>
        (case files w p of
           None \<Rightarrow> (Raise FileNotFoundError, w)
         | Some s \<Rightarrow> (r, w\<lparr>files := (files w)(p := None), events := events w @ [Unlinked p]\<rparr>)))"

text \<open>
  \<^verbatim>\<open>open_in_editor\<close>. The \<^verbatim>\<open>with\<close> block that makes the temporary file stands before the
  \<^verbatim>\<open>try\<close> statement: an exception raised in it leaves the function at once, and the
  \<^verbatim>\<open>finally\<close> clause covers the rest, the recursive call included.
\<close>

function open_in_editor :: "env \<Rightarrow> json \<Rightarrow> world \<Rightarrow> json result \<times> world" where
  "open_in_editor E data w =
     (let json_str = json_dumps E data
      in case create_temp E (json_str @ nl) w of
           (Inl e, w1) \<Rightarrow> (Raise e, w1)
         | (Inr temp_path, w1) \<Rightarrow>
             finally_unlink temp_path
               (case run_editor E temp_path w1 of
                  (False, w2) \<Rightarrow> (Raise CalledProcessError, w2)
                | (True, w2) \<Rightarrow>
                    (case files w2 temp_path of
                       None \<Rightarrow> (Raise FileNotFoundError, w2)
                     | Some content \<Rightarrow>
                         (case json_loads E content of
                            Some v \<Rightarrow> (Return v, w2)
                          | None \<Rightarrow>
                              (case py_input w2 of
                                 None \<Rightarrow> (Raise EOFError, w2)
                               | Some (answer, w3) \<Rightarrow>
                                   if lower (strip answer) \<noteq> ''n'' then
                                     (case json_loads E json_str of
                                        None \<Rightarrow> (Raise JSONDecodeError, w3)
                                      | Some original \<Rightarrow> open_in_editor E original w3)
                                   else (SystemExit (Message ''Aborted''), w3))))))"
  by pat_completeness auto
termination
  by (relation "measure (\<lambda>(E, data, w). length (stdin w))")
    (auto simp: create_temp_def named_temp_file_def run_editor_def py_input_def Let_def
          split: prod.splits list.splits option.splits)

declare open_in_editor.simps [simp del]

text \<open>
  The world in which the temporary file of an \<^const>\<open>open_in_editor\<close> call has been written
  and its editor has exited: the file exists and holds what the editor left in it.
\<close>

definition after_editor :: "env \<Rightarrow> json \<Rightarrow> world \<Rightarrow> world" where
  "after_editor E data w =
     (case named_temp_file (json_dumps E data @ nl) w of
        (p, w1) \<Rightarrow> snd (run_editor E p w1))"

section \<open>add_bit\<close>

text \<open>
  The two assignments under \<^verbatim>\<open># Add metadata\<close>. Assigning to a key the dict has keeps
  the key's place; a new key goes to the end.
\<close>

definition add_metadata :: "env \<Rightarrow> string \<Rightarrow> (string \<times> json) list \<Rightarrow> (string \<times> json) list" where
  "add_metadata E title kvs =
     AList.update ''date'' (JStr (strftime_ymd (local_date E)))
       (AList.update ''id'' (JStr (slugify title @ ''-'' @ str_int (time_ms E))) kvs)"

text \<open>\<^verbatim>\<open>if key in bit and not bit[key]: del bit[key]\<close>\<close>

definition del_if_falsy :: "string \<Rightarrow> (string \<times> json) list \<Rightarrow> (string \<times> json) list" where
  "del_if_falsy key kvs =
     (case map_of kvs key of
        None \<Rightarrow> kvs
      | Some v \<Rightarrow> if \<not> truthy v then AList.delete key kvs else kvs)"

text \<open>The loop and the test under \<^verbatim>\<open># Remove empty optional fields\<close>.\<close>

definition remove_empty :: "(string \<times> json) list \<Rightarrow> (string \<times> json) list" where
  "remove_empty kvs = del_if_falsy ''tags'' (fold del_if_falsy [''url'', ''content'', ''via''] kvs)"

text \<open>
  \<^verbatim>\<open>add_bit\<close>. Subscripting with a string raises \<^verbatim>\<open>TypeError\<close> on everything but a dict
  and \<^verbatim>\<open>KeyError\<close> on a dict without the key; \<^verbatim>\<open>.lower()\<close> and \<^verbatim>\<open>.insert\<close> raise
  \<^verbatim>\<open>AttributeError\<close> on an object that has no such method.
\<close>

definition add_bit :: "env \<Rightarrow> json \<Rightarrow> world \<Rightarrow> unit result \<times> world" where
  "add_bit E bit1 w =
     (case files w BitsJson of
        None \<Rightarrow> (Raise FileNotFoundError, w)
      | Some stored \<Rightarrow>
          (case json_loads E stored of
             None \<Rightarrow> (Raise JSONDecodeError, w)
           | Some bits \<Rightarrow>
               (case bit1 of
                  JObj kvs \<Rightarrow>
                    (case map_of kvs ''title'' of
                       None \<Rightarrow> (Raise KeyError, w)
                     | Some (JStr title) \<Rightarrow>
                         (let final = remove_empty (add_metadata E title kvs)
                          in case bits of
                               JArr old \<Rightarrow>
                                 (let written = json_dumps E (JArr (JObj final # old)) @ nl;
                                      w1 = w\<lparr>files := (files w)(BitsJson \<mapsto> written),
                                              events := events w @ [Wrote BitsJson]\<rparr>
                                  in if build_bits E written then (Return (), w1)
                                     else (Raise CalledProcessError, w1))
                             | _ \<Rightarrow> (Raise AttributeError, w))
                     | Some _ \<Rightarrow> (Raise AttributeError, w))
                | _ \<Rightarrow> (Raise TypeError, w))))"

section \<open>main\<close>

definition main :: "env \<Rightarrow> world \<Rightarrow> unit result \<times> world" where
  "main E w =
     (if api_key E = None \<or> api_key E = Some [] then (SystemExit (Status 1), w)
      else
        case get_user_input w of (text, w1) \<Rightarrow>
          if strip text = [] then (SystemExit (Status 0), w1)
          else
            (case structure_with_claude E text of
               Raise e \<Rightarrow> (SystemExit (Status 1), w1)
             | SystemExit a \<Rightarrow> (SystemExit a, w1)
             | Return bit0 \<Rightarrow>
                 (case open_in_editor E bit0 w1 of
                    (Raise e, w2) \<Rightarrow> (Raise e, w2)
                  | (SystemExit a, w2) \<Rightarrow> (SystemExit a, w2)
                  | (Return bit1, w2) \<Rightarrow>
                      (case py_input w2 of
                         None \<Rightarrow> (Raise EOFError, w2)
                       | Some (confirm, w3) \<Rightarrow>
                           if lower (strip confirm) = ''n'' then (SystemExit (Status 0), w3)
                           else add_bit E bit1 w3))))"

section \<open>Statements about runs\<close>

text \<open>
  The file events of a run, read as the life of its temporary files: no temporary file
  is created while an earlier one is still on disk.
\<close>

fun deleted_before_next :: "path list \<Rightarrow> event list \<Rightarrow> bool" where
  "deleted_before_next live [] = True"
| "deleted_before_next live (Created p # es) = (live = [] \<and> deleted_before_next [p] es)"
| "deleted_before_next live (Unlinked p # es) = deleted_before_next (removeAll p live) es"
| "deleted_before_next live (e # es) = deleted_before_next live es"

text \<open>A dict with a \<^verbatim>\<open>title\<close> key; a dict whose \<^verbatim>\<open>title\<close> is a non-empty string.\<close>

definition has_title_key :: "json \<Rightarrow> bool" where
  "has_title_key v = (case v of JObj kvs \<Rightarrow> map_of kvs ''title'' \<noteq> None | _ \<Rightarrow> False)"

definition has_nonempty_title :: "json \<Rightarrow> bool" where
  "has_nonempty_title v =
     (case v of
        JObj kvs \<Rightarrow> (case map_of kvs ''title'' of Some (JStr s) \<Rightarrow> s \<noteq> [] | _ \<Rightarrow> False)
      | _ \<Rightarrow> False)"

definition returns_titled :: "json result \<Rightarrow> bool" where
  "returns_titled r = (case r of Return v \<Rightarrow> has_nonempty_title v | _ \<Rightarrow> False)"

text \<open>The regular expressions \<^verbatim>\<open>example-\d+\<close> and \<^verbatim>\<open>\d{4}-\d{2}-\d{2}\<close>, matched in full.\<close>

definition matches_example_id :: "string \<Rightarrow> bool" where
  "matches_example_id s =
     (take 8 s = ''example-'' \<and> drop 8 s \<noteq> [] \<and> list_all is_digit (drop 8 s))"

definition matches_date :: "string \<Rightarrow> bool" where
  "matches_date s =
     (length s = 10 \<and> list_all is_digit (take 4 s) \<and> s ! 4 = CHR ''-'' \<and>
      list_all is_digit (take 2 (drop 5 s)) \<and> s ! 7 = CHR ''-'' \<and>
      list_all is_digit (drop 8 s))"

section \<open>An example environment\<close>

text \<open>
  The runs the theorems below are tried on. The bit is what the structuring call
  returns; \<^verbatim>\<open>demo_bit_text\<close> is Python's \<^verbatim>\<open>json.dumps\<close> of it with \<^verbatim>\<open>indent=2\<close>. The
  store holds one older record. The \<^verbatim>\<open>json\<close> module is tabled on the texts and values
  that occur in these runs and on nothing else. Every temporary file is written without
  an error.
\<close>

definition demo_bit :: json where
  "demo_bit = JObj [(''title'', JStr ''Example''), (''url'', JStr []), (''tags'', JArr [])]"

definition demo_bit_text :: string where
  "demo_bit_text =
     ''{'' @ nl @
     ''  \"title\": \"Example\",'' @ nl @
     ''  \"url\": \"\",'' @ nl @
     ''  \"tags\": []'' @ nl @
     ''}''"

definition demo_older :: json where
  "demo_older =
     JObj [(''title'', JStr ''Older''), (''id'', JStr ''older-1699999999999''),
           (''date'', JStr ''2023-11-14'')]"

definition demo_store_text :: string where
  "demo_store_text =
     ''['' @ nl @
     ''  {'' @ nl @
     ''    \"title\": \"Older\",'' @ nl @
     ''    \"id\": \"older-1699999999999\",'' @ nl @
     ''    \"date\": \"2023-11-14\"'' @ nl @
     ''  }'' @ nl @
     '']''"

definition demo_final :: json where
  "demo_final =
     JObj [(''title'', JStr ''Example''), (''id'', JStr ''example-1700000000000''),
           (''date'', JStr ''2023-11-14'')]"

definition demo_new_store_text :: string where
  "demo_new_store_text =
     ''['' @ nl @
     ''  {'' @ nl @
     ''    \"title\": \"Example\",'' @ nl @
     ''    \"id\": \"example-1700000000000\",'' @ nl @
     ''    \"date\": \"2023-11-14\"'' @ nl @
     ''  },'' @ nl @
     ''  {'' @ nl @
     ''    \"title\": \"Older\",'' @ nl @
     ''    \"id\": \"older-1699999999999\",'' @ nl @
     ''    \"date\": \"2023-11-14\"'' @ nl @
     ''  }'' @ nl @
     '']''"

definition demo_loads :: "string \<Rightarrow> json option" where
  "demo_loads s =
     (if s = demo_bit_text \<or> s = demo_bit_text @ nl then Some demo_bit
      else if s = demo_store_text @ nl then Some (JArr [demo_older])
      else if s = ''[]'' then Some (JArr [])
      else None)"

definition demo_dumps :: "json \<Rightarrow> string" where
  "demo_dumps v =
     (if v = demo_bit then demo_bit_text
      else if v = JArr [demo_older] then demo_store_text
      else if v = JArr [demo_final, demo_older] then demo_new_store_text
      else if v = JArr [] then ''[]''
      else [])"

text \<open>
  The editor's first run leaves a lone brace (not JSON), its second saves the file as it
  is, its third replaces the text by an empty JSON list, and every later run fails.
\<close>

definition demo_editor :: "nat \<Rightarrow> string \<Rightarrow> bool \<times> string" where
  "demo_editor n s =
     (if n = 0 then (True, ''{'')
      else if n = 1 then (True, s)
      else if n = 2 then (True, ''[]'')
      else (False, s))"

definition demo_env :: env where
  "demo_env =
     \<lparr>json_loads = demo_loads,
      json_dumps = demo_dumps,
      temp_write = (\<lambda>s. None),
      editor = demo_editor,
      api_key = Some ''sk-example'',
      messages_create = (\<lambda>p. if p = prompt ''Example'' then Inr [ToolUseBlock demo_bit]
                               else Inl APIError),
      time_ms = 1700000000000,
      local_date = (2023, 11, 14),
      build_bits = (\<lambda>written. True)\<rparr>"

definition demo_world :: "string list \<Rightarrow> nat \<Rightarrow> world" where
  "demo_world input_lines runs =
     \<lparr>files = (\<lambda>p. None)(BitsJson \<mapsto> demo_store_text @ nl),
      stdin = input_lines,
      temp_count = 0,
      editor_count = runs,
      events = []\<rparr>"

section \<open>Properties of slugify\<close>

lemma hyphen_not_slug_char: "\<not> is_slug_char CHR ''-''"
  by (simp add: is_slug_char_def)

lemma set_sub_runs: "c \<in> set (sub_runs s) \<Longrightarrow> is_slug_char c \<or> c = CHR ''-''"
  by (induction s rule: sub_runs.induct) (auto split: if_splits)

lemma set_sub_edges: "set (sub_edges s) \<subseteq> set s"
  by (auto simp: sub_edges_def Let_def split: list.splits if_splits dest: in_set_butlastD)

lemma slugify_length: "length (slugify t) \<le> 50"
  by (simp add: slugify_def)

lemma slugify_chars: "c \<in> set (slugify t) \<Longrightarrow> is_slug_char c \<or> c = CHR ''-''"
proof -
  assume "c \<in> set (slugify t)"
  then have "c \<in> set (sub_edges (sub_runs (lower t)))"
    unfolding slugify_def by (rule in_set_takeD)
  then have "c \<in> set (sub_runs (lower t))"
    using set_sub_edges by blast
  then show ?thesis by (rule set_sub_runs)
qed

text \<open>After a hyphen, \<^const>\<open>sub_runs\<close> goes on with a character of a-z, 0-9, or ends.\<close>

lemma sub_runs_head:
  "sub_runs s = [] \<or> is_slug_char (hd (sub_runs s)) \<or>
   (hd (sub_runs s) = CHR ''-'' \<and>
    (tl (sub_runs s) = [] \<or> is_slug_char (hd (tl (sub_runs s)))))"
proof (cases s)
  case Nil
  then show ?thesis by simp
next
  case (Cons c cs)
  show ?thesis
  proof (cases "is_slug_char c")
    case True
    with Cons show ?thesis by simp
  next
    case False
    define r where "r = dropWhile (\<lambda>d. \<not> is_slug_char d) cs"
    have "sub_runs r = [] \<or> is_slug_char (hd (sub_runs r))"
    proof (cases r)
      case Nil
      then show ?thesis by simp
    next
      case (Cons d ds)
      then have "is_slug_char (hd r)"
        unfolding r_def using hd_dropWhile[of "\<lambda>d. \<not> is_slug_char d" cs] by fastforce
      with Cons show ?thesis by simp
    qed
    with Cons False show ?thesis by (simp add: r_def)
  qed
qed

lemma sub_edges_head:
  "sub_edges (sub_runs s) = [] \<or> is_slug_char (hd (sub_edges (sub_runs s)))"
proof -
  define r where "r = sub_runs s"
  define s1 where "s1 = (case r of [] \<Rightarrow> [] | c # cs \<Rightarrow> if c = CHR ''-'' then cs else r)"
  have s1: "s1 = [] \<or> is_slug_char (hd s1)"
    using sub_runs_head[of s] unfolding s1_def r_def
    by (cases "sub_runs s") (auto simp: hyphen_not_slug_char)
  have e: "sub_edges r = (if s1 \<noteq> [] \<and> last s1 = CHR ''-'' then butlast s1 else s1)"
    by (simp add: sub_edges_def s1_def)
  show ?thesis
  proof (cases "s1 \<noteq> [] \<and> last s1 = CHR ''-''")
    case False
    with e s1 show ?thesis unfolding r_def by auto
  next
    case True
    then obtain c cs where c: "s1 = c # cs" by (cases s1) auto
    with s1 have sc: "is_slug_char c" by simp
    with True c have "cs \<noteq> []" using hyphen_not_slug_char by auto
    with c have "butlast s1 = c # butlast cs" by simp
    with e True sc show ?thesis unfolding r_def by simp
  qed
qed

lemma slugify_no_leading_hyphen: "slugify t \<noteq> [] \<Longrightarrow> hd (slugify t) \<noteq> CHR ''-''"
proof -
  assume ne: "slugify t \<noteq> []"
  let ?e = "sub_edges (sub_runs (lower t))"
  from ne have "?e \<noteq> []" by (auto simp: slugify_def)
  with sub_edges_head[of "lower t"] have "is_slug_char (hd ?e)" by simp
  moreover have "hd (slugify t) = hd ?e"
    using ne by (simp add: slugify_def hd_take)
  ultimately show ?thesis using hyphen_not_slug_char by auto
qed

lemma slugify_examples:
  "slugify ''Hello, World!!'' = ''hello-world''" "slugify [] = []"
  by code_simp+

text \<open>
  C4. The claim: \<^verbatim>\<open>slugify("Hello, World!!")\<close> is \<^verbatim>\<open>"hello-world"\<close>, \<^verbatim>\<open>slugify("")\<close> is
  \<^verbatim>\<open>""\<close>, and every slug has at most 50 characters, only lowercase letters, digits and
  hyphens, and no hyphen at its start or end. The lemmas above give all of it but the
  end: \<^verbatim>\<open>slugify\<close> removes the hyphens at the two ends and cuts to 50 characters after
  that, so a slug cut right behind a hyphen ends with it. The title of 49 letters
  \<^verbatim>\<open>a\<close>, a space and a \<^verbatim>\<open>b\<close> gives the 49 letters and a hyphen.
\<close>

theorem slugify_cut_ends_with_hyphen:
  "slugify (replicate 49 CHR ''a'' @ '' b'') = replicate 49 CHR ''a'' @ ''-'' \<and>
   last (slugify (replicate 49 CHR ''a'' @ '' b'')) = CHR ''-''"
  by code_simp

section \<open>Properties of open_in_editor\<close>

lemma after_editor_fields:
  "files (after_editor E data w) =
     (files w)(TempFile (temp_count w) \<mapsto>
        snd (editor E (editor_count w) (json_dumps E data @ nl)))"
  "stdin (after_editor E data w) = stdin w"
  "temp_count (after_editor E data w) = Suc (temp_count w)"
  "editor_count (after_editor E data w) = Suc (editor_count w)"
  "events (after_editor E data w) =
     events w @ [Created (TempFile (temp_count w)), EditorRan (TempFile (temp_count w))]"
  by (simp_all add: after_editor_def named_temp_file_def run_editor_def Let_def
      split: prod.splits)

text \<open>
  A failed write: the exception leaves \<^verbatim>\<open>open_in_editor\<close> before the \<^verbatim>\<open>try\<close> statement is
  entered, so no \<^verbatim>\<open>os.unlink\<close> follows.
\<close>

lemma open_in_editor_write_fails:
  "temp_write E (json_dumps E data @ nl) = Some (e, reached) \<Longrightarrow>
   open_in_editor E data w =
     (Raise e, w\<lparr>files := (files w)(TempFile (temp_count w) \<mapsto> reached),
                 temp_count := Suc (temp_count w),
                 events := events w @ [Created (TempFile (temp_count w))]\<rparr>)"
  by (subst open_in_editor.simps) (simp add: create_temp_def named_temp_file_def Let_def)

lemma temp_file_left_when_write_fails:
  "fst (open_in_editor (demo_env\<lparr>temp_write := \<lambda>s. Some (OSError, [])\<rparr>) demo_bit
          (demo_world [] 1)) = Raise OSError \<and>
   files (snd (open_in_editor (demo_env\<lparr>temp_write := \<lambda>s. Some (OSError, [])\<rparr>) demo_bit
          (demo_world [] 1))) (TempFile 0) = Some []"
  using open_in_editor_write_fails[of "demo_env\<lparr>temp_write := \<lambda>s. Some (OSError, [])\<rparr>"
      demo_bit OSError "[]" "demo_world [] 1"]
  by (simp add: demo_world_def)

text \<open>One round of the function once the file is written, with the helper calls evaluated.\<close>

lemma open_in_editor_unfold:
  "temp_write E (json_dumps E data @ nl) = None \<Longrightarrow>
   open_in_editor E data w =
     finally_unlink (TempFile (temp_count w))
       (let w2 = after_editor E data w;
            saved = editor E (editor_count w) (json_dumps E data @ nl)
        in if \<not> fst saved then (Raise CalledProcessError, w2)
           else
             (case json_loads E (snd saved) of
                Some v \<Rightarrow> (Return v, w2)
              | None \<Rightarrow>
                  (case stdin w of
                     [] \<Rightarrow> (Raise EOFError, w2)
                   | answer # rest \<Rightarrow>
                       if lower (strip answer) \<noteq> ''n'' then
                         (case json_loads E (json_dumps E data) of
                            None \<Rightarrow> (Raise JSONDecodeError, w2\<lparr>stdin := rest\<rparr>)
                          | Some original \<Rightarrow> open_in_editor E original (w2\<lparr>stdin := rest\<rparr>))
                       else (SystemExit (Message ''Aborted''), w2\<lparr>stdin := rest\<rparr>))))"
  apply (subst open_in_editor.simps)
  apply (simp add: after_editor_def create_temp_def named_temp_file_def run_editor_def
       py_input_def Let_def
       split: prod.splits list.splits option.splits bool.splits)
  done

lemma finally_unlink_present:
  "files wb p = Some s \<Longrightarrow>
   finally_unlink p (rb, wb) =
     (rb, wb\<lparr>files := (files wb)(p := None), events := events wb @ [Unlinked p]\<rparr>)"
  by (simp add: finally_unlink_def)

lemma open_in_editor_valid:
  assumes "temp_write E (json_dumps E data @ nl) = None"
    and "editor E (editor_count w) (json_dumps E data @ nl) = (True, content)"
    and "json_loads E content = Some v"
  shows "open_in_editor E data w =
     (Return v, (after_editor E data w)
        \<lparr>files := (files (after_editor E data w))(TempFile (temp_count w) := None),
         events := events (after_editor E data w) @ [Unlinked (TempFile (temp_count w))]\<rparr>)"
  using assms(2,3)
  by (subst open_in_editor_unfold[OF assms(1)])
     (simp add: Let_def finally_unlink_def after_editor_fields)

lemma open_in_editor_abort:
  assumes "temp_write E (json_dumps E data @ nl) = None"
    and "editor E (editor_count w) (json_dumps E data @ nl) = (True, content)"
    and "json_loads E content = None"
    and "stdin w = answer # rest"
    and "lower (strip answer) = ''n''"
  shows "fst (open_in_editor E data w) = SystemExit (Message ''Aborted'')"
  using assms(2-)
  by (subst open_in_editor_unfold[OF assms(1)])
     (simp add: Let_def finally_unlink_def after_editor_fields)

lemma open_in_editor_retry:
  assumes "temp_write E (json_dumps E data @ nl) = None"
    and "editor E (editor_count w) (json_dumps E data @ nl) = (True, content)"
    and "json_loads E content = None"
    and "stdin w = answer # rest"
    and "lower (strip answer) \<noteq> ''n''"
    and "json_loads E (json_dumps E data) = Some original"
  shows "open_in_editor E data w =
     finally_unlink (TempFile (temp_count w))
       (open_in_editor E original ((after_editor E data w)\<lparr>stdin := rest\<rparr>))"
  using assms(2-)
  by (subst open_in_editor_unfold[OF assms(1)]) (simp add: Let_def)

text \<open>
  What a call leaves behind, by induction on the lines left on standard input. The
  first four facts hold of every call; the fifth needs the call's own temporary file
  to have been written, the last needs that of every temporary file.
\<close>

lemma open_in_editor_frame_conj:
  "open_in_editor E data w = (r, w') \<Longrightarrow>
     temp_count w < temp_count w' \<and>
     (\<forall>k. k < temp_count w \<or> temp_count w' \<le> k \<longrightarrow>
          files w' (TempFile k) = files w (TempFile k)) \<and>
     files w' BitsJson = files w BitsJson \<and>
     (\<exists>es. events w' = events w @ Created (TempFile (temp_count w)) # es) \<and>
     (temp_write E (json_dumps E data @ nl) = None \<longrightarrow>
        files w' (TempFile (temp_count w)) = None \<and>
        (\<exists>mid. events w' =
           events w @ Created (TempFile (temp_count w)) # mid @
             [Unlinked (TempFile (temp_count w))])) \<and>
     ((\<forall>s. temp_write E s = None) \<longrightarrow>
        (\<forall>k. temp_count w \<le> k \<and> k < temp_count w' \<longrightarrow> files w' (TempFile k) = None))"
proof (induction "length (stdin w)" arbitrary: w data r w' rule: less_induct)
  case less
  define p where "p = TempFile (temp_count w)"
  show ?case
  proof (cases "temp_write E (json_dumps E data @ nl)")
    case (Some failure)
    obtain e reached where "failure = (e, reached)" by (cases failure)
    with Some have failed: "temp_write E (json_dumps E data @ nl) = Some (e, reached)"
      by simp
    from open_in_editor_write_fails[OF failed, of w] less.prems
    have w': "w' = w\<lparr>files := (files w)(p \<mapsto> reached), temp_count := Suc (temp_count w),
                     events := events w @ [Created p]\<rparr>"
      by (simp add: p_def)
    have 1: "temp_count w < temp_count w'" by (simp add: w')
    have 2: "\<forall>k. k < temp_count w \<or> temp_count w' \<le> k \<longrightarrow>
        files w' (TempFile k) = files w (TempFile k)"
      by (auto simp: w' p_def)
    have 3: "files w' BitsJson = files w BitsJson" by (simp add: w' p_def)
    have 4: "\<exists>es. events w' = events w @ Created p # es" by (simp add: w')
    have 5: "temp_write E (json_dumps E data @ nl) \<noteq> None" using failed by simp
    have 6: "\<not> (\<forall>s. temp_write E s = None)" using failed by auto
    from 1 2 3 4 5 6 show ?thesis unfolding p_def by blast
  next
    case None
    define w2 where "w2 = after_editor E data w"
    define saved where "saved = editor E (editor_count w) (json_dumps E data @ nl)"
    have w2_files: "files w2 = (files w)(p \<mapsto> snd saved)"
      and w2_count: "temp_count w2 = Suc (temp_count w)"
      and w2_events: "events w2 = events w @ [Created p, EditorRan p]"
      and w2_stdin: "stdin w2 = stdin w"
      by (simp_all add: w2_def p_def saved_def after_editor_fields)
    have direct: ?thesis
      if "w' = wb\<lparr>files := (files wb)(p := None), events := events wb @ [Unlinked p]\<rparr>"
        and "files wb = files w2" and "temp_count wb = temp_count w2"
        and "events wb = events w2"
      for wb
    proof -
      have ev: "events w' = events w @ Created p # [EditorRan p] @ [Unlinked p]"
        using that w2_events by simp
      then have 5: "\<exists>mid. events w' = events w @ Created p # mid @ [Unlinked p]" by blast
      from ev have 4: "\<exists>es. events w' = events w @ Created p # es" by simp
      have count: "temp_count w' = Suc (temp_count w)" using that w2_count by simp
      have fs: "files w' = (files w)(p := None)" using that w2_files by simp
      have 1: "temp_count w < temp_count w'" using count by simp
      have 2: "\<forall>k. k < temp_count w \<or> temp_count w' \<le> k \<longrightarrow>
          files w' (TempFile k) = files w (TempFile k)"
        using count by (auto simp: fs p_def)
      have 3: "files w' BitsJson = files w BitsJson" by (simp add: fs p_def)
      have 6: "files w' p = None" by (simp add: fs)
      have 7: "\<forall>k. temp_count w \<le> k \<and> k < temp_count w' \<longrightarrow> files w' (TempFile k) = None"
        using count by (auto simp: fs p_def less_Suc_eq_le)
      from 1 2 3 4 5 6 7 show ?thesis unfolding p_def by blast
    qed
    define body where "body =
         (if \<not> fst saved then (Raise CalledProcessError, w2)
          else
            (case json_loads E (snd saved) of
               Some v \<Rightarrow> (Return v, w2)
             | None \<Rightarrow>
                 (case stdin w of
                    [] \<Rightarrow> (Raise EOFError, w2)
                  | answer # rest \<Rightarrow>
                      if lower (strip answer) \<noteq> ''n'' then
                        (case json_loads E (json_dumps E data) of
                           None \<Rightarrow> (Raise JSONDecodeError, w2\<lparr>stdin := rest\<rparr>)
                         | Some original \<Rightarrow> open_in_editor E original (w2\<lparr>stdin := rest\<rparr>))
                      else (SystemExit (Message ''Aborted''), w2\<lparr>stdin := rest\<rparr>))))"
    have step: "open_in_editor E data w = finally_unlink p body"
      unfolding p_def w2_def saved_def body_def
      by (subst open_in_editor_unfold[OF None]) (simp add: Let_def)
    have present: "files w2 p = Some (snd saved)" by (simp add: w2_files)
    show ?thesis
    proof (cases "fst saved \<and> json_loads E (snd saved) = None \<and>
        (\<exists>answer rest original. stdin w = answer # rest \<and> lower (strip answer) \<noteq> ''n'' \<and>
           json_loads E (json_dumps E data) = Some original)")
      case False
      then have "\<exists>rb wb. body = (rb, wb) \<and>
          files wb = files w2 \<and> temp_count wb = temp_count w2 \<and> events wb = events w2"
        unfolding body_def
        by (cases "fst saved"; cases "json_loads E (snd saved)"; cases "stdin w";
            cases "json_loads E (json_dumps E data)") auto
      then obtain rb wb where body: "open_in_editor E data w = finally_unlink p (rb, wb)"
        and wb: "files wb = files w2" "temp_count wb = temp_count w2" "events wb = events w2"
        unfolding step by auto
      have "files wb p = Some (snd saved)" using wb present by simp
      then have "finally_unlink p (rb, wb) =
          (rb, wb\<lparr>files := (files wb)(p := None), events := events wb @ [Unlinked p]\<rparr>)"
        by (rule finally_unlink_present)
      with body less.prems
      have "w' = wb\<lparr>files := (files wb)(p := None), events := events wb @ [Unlinked p]\<rparr>"
        by simp
      then show ?thesis using wb by (rule direct)
    next
      case True
      then obtain answer rest original where
        st: "stdin w = answer # rest" and ans: "lower (strip answer) \<noteq> ''n''"
        and orig: "json_loads E (json_dumps E data) = Some original" by blast
      define w3 where "w3 = w2\<lparr>stdin := rest\<rparr>"
      obtain rb wb where inner: "open_in_editor E original w3 = (rb, wb)" by force
      have body: "open_in_editor E data w = finally_unlink p (rb, wb)"
        unfolding step body_def using True st inner ans orig
        by (simp add: w3_def)
      have "length (stdin w3) < length (stdin w)" by (simp add: w3_def st)
      from less.hyps[OF this inner]
      have c: "temp_count w3 < temp_count wb"
        and old: "\<And>k. k < temp_count w3 \<or> temp_count wb \<le> k \<Longrightarrow>
                   files wb (TempFile k) = files w3 (TempFile k)"
        and store: "files wb BitsJson = files w3 BitsJson"
        and ev: "\<exists>es. events wb = events w3 @ Created (TempFile (temp_count w3)) # es"
        and new: "\<And>k. \<forall>s. temp_write E s = None \<Longrightarrow> temp_count w3 \<le> k \<Longrightarrow>
                   k < temp_count wb \<Longrightarrow> files wb (TempFile k) = None"
        by blast+
      have w3_files: "files w3 = (files w)(p \<mapsto> snd saved)"
        and w3_count: "temp_count w3 = Suc (temp_count w)"
        and w3_events: "events w3 = events w @ [Created p, EditorRan p]"
        by (simp_all add: w3_def w2_files w2_count w2_events)
      have "files wb p = files w3 p" unfolding p_def by (rule old) (simp add: w3_count)
      then have "files wb p = Some (snd saved)" by (simp add: w3_files)
      then have "finally_unlink p (rb, wb) =
          (rb, wb\<lparr>files := (files wb)(p := None), events := events wb @ [Unlinked p]\<rparr>)"
        by (rule finally_unlink_present)
      with body less.prems
      have w': "w' = wb\<lparr>files := (files wb)(p := None), events := events wb @ [Unlinked p]\<rparr>"
        by simp
      have 1: "temp_count w < temp_count w'" using c w3_count w' by simp
      have 2: "files w' (TempFile k) = files w (TempFile k)"
        if "k < temp_count w \<or> temp_count w' \<le> k" for k
      proof -
        from that c have k: "k \<noteq> temp_count w" "k < temp_count w3 \<or> temp_count wb \<le> k"
          by (auto simp: w3_count w')
        have "files wb (TempFile k) = files w3 (TempFile k)" using k(2) by (rule old)
        with k(1) show ?thesis by (simp add: w' w3_files p_def)
      qed
      have 3: "files w' BitsJson = files w BitsJson"
        using store by (simp add: w' w3_files p_def)
      from ev obtain es where
        "events wb = events w3 @ Created (TempFile (temp_count w3)) # es" by blast
      then have evs: "events w' = events w @ Created p #
          (EditorRan p # Created (TempFile (temp_count w3)) # es) @ [Unlinked p]"
        by (simp add: w' w3_events)
      then have 5: "\<exists>mid. events w' = events w @ Created p # mid @ [Unlinked p]" by blast
      from evs have 4: "\<exists>es. events w' = events w @ Created p # es" by simp
      have 6: "files w' p = None" by (simp add: w')
      have 7: "files w' (TempFile k) = None"
        if all: "\<forall>s. temp_write E s = None" and "temp_count w \<le> k" "k < temp_count w'" for k
      proof (cases "k = temp_count w")
        case True
        then show ?thesis by (simp add: w' p_def)
      next
        case False
        with that have "temp_count w3 \<le> k" "k < temp_count wb" by (simp_all add: w3_count w')
        with all have "files wb (TempFile k) = None" by (rule new)
        then show ?thesis by (simp add: w')
      qed
      from 1 2 3 4 5 6 7 show ?thesis unfolding p_def by blast
    qed
  qed
qed

lemma open_in_editor_keeps_store:
  "open_in_editor E data w = (r, w') \<Longrightarrow> files w' BitsJson = files w BitsJson"
  using open_in_editor_frame_conj by blast

section \<open>Facts of the example environment\<close>

lemma demo_answers:
  "lower (strip []) = []" "lower (strip ''n'') = ''n''" "lower (strip ''y'') = ''y''"
  "strip ''Example'' = ''Example''"
  by code_simp+

lemma demo_json:
  "demo_loads ''{'' = None"
  "demo_loads demo_bit_text = Some demo_bit"
  "demo_loads (demo_bit_text @ nl) = Some demo_bit"
  "demo_loads ''[]'' = Some (JArr [])"
  "demo_loads (demo_store_text @ nl) = Some (JArr [demo_older])"
  "demo_dumps demo_bit = demo_bit_text"
  by code_simp+

lemmas demo_simps =
  demo_env_def demo_world_def demo_editor_def demo_answers demo_json
  after_editor_fields finally_unlink_def Let_def

section \<open>The edit/validate loop\<close>

text \<open>
  C1. When the temporary file has been written and the editor has exited with status 0
  and left the text \<open>content\<close> in it: if \<open>content\<close> is valid JSON, \<^verbatim>\<open>open_in_editor\<close>
  returns exactly the value parsed from it; if it is not and the user answers \<^verbatim>\<open>n\<close> to
  "Re-edit?", the call ends with \<^verbatim>\<open>SystemExit("Aborted")\<close> and returns no value; if the
  user gives any other answer, the call is a new call of \<^verbatim>\<open>open_in_editor\<close> on the
  original data parsed back from its own JSON text (followed by the deletion of the
  first temporary file). The second editor run therefore opens the text of the
  original, not the broken edit, and what it saves is what the loop returns.
\<close>

theorem open_in_editor_outcomes:
  assumes "editor E (editor_count w) (json_dumps E data @ nl) = (True, content)"
    and "temp_write E (json_dumps E data @ nl) = None"
  shows
    "(\<forall>v. json_loads E content = Some v \<longrightarrow> fst (open_in_editor E data w) = Return v) \<and>
     (\<forall>answer rest.
        json_loads E content = None \<and> stdin w = answer # rest \<and> lower (strip answer) = ''n''
        \<longrightarrow> fst (open_in_editor E data w) = SystemExit (Message ''Aborted'')) \<and>
     (\<forall>answer rest original.
        json_loads E content = None \<and> stdin w = answer # rest \<and>
        lower (strip answer) \<noteq> ''n'' \<and> json_loads E (json_dumps E data) = Some original
        \<longrightarrow> open_in_editor E data w =
              finally_unlink (TempFile (temp_count w))
                (open_in_editor E original ((after_editor E data w)\<lparr>stdin := rest\<rparr>)) \<and>
            (\<forall>content2 v2.
               temp_write E (json_dumps E original @ nl) = None \<and>
               editor E (Suc (editor_count w)) (json_dumps E original @ nl) = (True, content2) \<and>
               json_loads E content2 = Some v2
               \<longrightarrow> fst (open_in_editor E data w) = Return v2))"
proof (intro conjI allI impI)
  fix v
  assume "json_loads E content = Some v"
  with assms show "fst (open_in_editor E data w) = Return v"
    by (simp add: open_in_editor_valid)
next
  fix answer rest
  assume "json_loads E content = None \<and> stdin w = answer # rest \<and> lower (strip answer) = ''n''"
  then have "json_loads E content = None" "stdin w = answer # rest"
    "lower (strip answer) = ''n''" by simp_all
  with assms(2,1) show "fst (open_in_editor E data w) = SystemExit (Message ''Aborted'')"
    by (rule open_in_editor_abort)
next
  fix answer rest original
  assume h: "json_loads E content = None \<and> stdin w = answer # rest \<and>
        lower (strip answer) \<noteq> ''n'' \<and> json_loads E (json_dumps E data) = Some original"
  then have "json_loads E content = None" "stdin w = answer # rest"
    "lower (strip answer) \<noteq> ''n''" "json_loads E (json_dumps E data) = Some original"
    by simp_all
  with assms(2,1) show retry: "open_in_editor E data w =
      finally_unlink (TempFile (temp_count w))
        (open_in_editor E original ((after_editor E data w)\<lparr>stdin := rest\<rparr>))"
    by (rule open_in_editor_retry)
  fix content2 v2
  assume h2: "temp_write E (json_dumps E original @ nl) = None \<and>
               editor E (Suc (editor_count w)) (json_dumps E original @ nl) = (True, content2) \<and>
               json_loads E content2 = Some v2"
  define w3 where "w3 = (after_editor E data w)\<lparr>stdin := rest\<rparr>"
  have written: "temp_write E (json_dumps E original @ nl) = None"
    and parsed: "json_loads E content2 = Some v2" using h2 by simp_all
  have "editor E (editor_count w3) (json_dumps E original @ nl) = (True, content2)"
    using h2 by (simp add: w3_def after_editor_fields)
  from open_in_editor_valid[OF written this parsed]
  have inner: "open_in_editor E original w3 =
     (Return v2, (after_editor E original w3)
        \<lparr>files := (files (after_editor E original w3))(TempFile (temp_count w3) := None),
         events := events (after_editor E original w3) @ [Unlinked (TempFile (temp_count w3))]\<rparr>)"
    by simp
  have "temp_count w3 = Suc (temp_count w)"
    by (simp add: w3_def after_editor_fields)
  then have "fst (finally_unlink (TempFile (temp_count w)) (open_in_editor E original w3)) =
      Return v2"
    unfolding inner by (simp add: finally_unlink_def after_editor_fields w3_def)
  with retry show "fst (open_in_editor E data w) = Return v2"
    by (simp add: w3_def)
qed

theorem open_in_editor_outcomes_witness:
  "fst (open_in_editor demo_env demo_bit (demo_world [] 1)) = Return demo_bit \<and>
   fst (open_in_editor demo_env demo_bit (demo_world [''n''] 0)) =
     SystemExit (Message ''Aborted'') \<and>
   fst (open_in_editor demo_env demo_bit (demo_world [[]] 0)) = Return demo_bit"
proof -
  have saved: "editor demo_env (editor_count (demo_world [] 1))
      (json_dumps demo_env demo_bit @ nl) = (True, demo_bit_text @ nl)"
    by (simp add: demo_simps)
  have broken: "editor demo_env (editor_count (demo_world ls 0))
      (json_dumps demo_env demo_bit @ nl) = (True, ''{'')" for ls
    by (simp add: demo_simps)
  have written: "temp_write demo_env (json_dumps demo_env demo_bit @ nl) = None"
    by (simp add: demo_env_def)
  from open_in_editor_outcomes[OF saved written]
  have 1: "fst (open_in_editor demo_env demo_bit (demo_world [] 1)) = Return demo_bit"
    by (simp add: demo_simps)
  from open_in_editor_outcomes[OF broken written, of "[''n'']"]
  have 2: "fst (open_in_editor demo_env demo_bit (demo_world [''n''] 0)) =
     SystemExit (Message ''Aborted'')"
    by (simp add: demo_simps)
  note retry = open_in_editor_outcomes[OF broken written, of "[[]]", THEN conjunct2,
      THEN conjunct2, rule_format, of "[]" "[]" demo_bit, THEN conjunct2, rule_format,
      of "demo_bit_text @ nl" demo_bit]
  have 3: "fst (open_in_editor demo_env demo_bit (demo_world [[]] 0)) = Return demo_bit"
    by (rule retry) (simp_all add: demo_simps)
  from 1 2 3 show ?thesis by simp
qed

text \<open>
  C2, as the code has it. The claim says the temporary file of a call is deleted
  before the call returns, recurses or raises. The recursive call stands inside the
  \<^verbatim>\<open>try\<close> block, so the \<^verbatim>\<open>finally\<close> clause of the outer call runs after the inner call
  has ended: in a run with one broken edit and one retry, the second temporary file is
  created and edited while the first is still on disk.
\<close>

theorem temp_file_alive_during_retry:
  "events (snd (open_in_editor demo_env demo_bit (demo_world [[]] 0))) =
     [Created (TempFile 0), EditorRan (TempFile 0),
      Created (TempFile 1), EditorRan (TempFile 1),
      Unlinked (TempFile 1), Unlinked (TempFile 0)] \<and>
   \<not> deleted_before_next []
       (events (snd (open_in_editor demo_env demo_bit (demo_world [[]] 0))))"
  by (simp add: open_in_editor_unfold demo_simps)

text \<open>
  C2, amended. For every call of \<^verbatim>\<open>open_in_editor\<close> that has written its temporary file,
  and however the call ends from there (a parsed value, a parse failure followed by a
  retry or an abort, a failure of the editor): the temporary file the call created is
  deleted before the call returns or raises, deleting it being the call's last file
  event. It is not deleted before the call recurses: on a retry the broken edit is still
  on disk when the nested call starts, and the outer \<^verbatim>\<open>finally\<close> clause runs once the
  nested call has ended. Where the writing of a temporary file never fails, no temporary
  file created during the call is on disk at its end.
\<close>

theorem open_in_editor_removes_temp_files:
  assumes "open_in_editor E data w = (r, w')"
    and "temp_write E (json_dumps E data @ nl) = None"
  shows
    "files w' (TempFile (temp_count w)) = None \<and>
     (\<exists>mid. events w' =
        events w @ Created (TempFile (temp_count w)) # mid @
          [Unlinked (TempFile (temp_count w))]) \<and>
     (\<forall>content answer rest original.
        editor E (editor_count w) (json_dumps E data @ nl) = (True, content) \<and>
        json_loads E content = None \<and> stdin w = answer # rest \<and>
        lower (strip answer) \<noteq> ''n'' \<and> json_loads E (json_dumps E data) = Some original
        \<longrightarrow> files ((after_editor E data w)\<lparr>stdin := rest\<rparr>) (TempFile (temp_count w)) =
              Some content \<and>
            open_in_editor E data w =
              finally_unlink (TempFile (temp_count w))
                (open_in_editor E original ((after_editor E data w)\<lparr>stdin := rest\<rparr>))) \<and>
     ((\<forall>s. temp_write E s = None) \<longrightarrow>
        temp_count w < temp_count w' \<and>
        (\<forall>k. temp_count w \<le> k \<and> k < temp_count w' \<longrightarrow> files w' (TempFile k) = None))"
proof -
  note frame = open_in_editor_frame_conj[OF assms(1)]
  from frame assms(2) have own: "files w' (TempFile (temp_count w)) = None"
    and last: "\<exists>mid. events w' =
        events w @ Created (TempFile (temp_count w)) # mid @
          [Unlinked (TempFile (temp_count w))]"
    by blast+
  from frame have all: "(\<forall>s. temp_write E s = None) \<longrightarrow>
        temp_count w < temp_count w' \<and>
        (\<forall>k. temp_count w \<le> k \<and> k < temp_count w' \<longrightarrow> files w' (TempFile k) = None)"
    by blast
  have retry: "files ((after_editor E data w)\<lparr>stdin := rest\<rparr>) (TempFile (temp_count w)) =
              Some content \<and>
            open_in_editor E data w =
              finally_unlink (TempFile (temp_count w))
                (open_in_editor E original ((after_editor E data w)\<lparr>stdin := rest\<rparr>))"
    if h: "editor E (editor_count w) (json_dumps E data @ nl) = (True, content) \<and>
        json_loads E content = None \<and> stdin w = answer # rest \<and>
        lower (strip answer) \<noteq> ''n'' \<and> json_loads E (json_dumps E data) = Some original"
    for content answer rest original
  proof
    from h show "files ((after_editor E data w)\<lparr>stdin := rest\<rparr>) (TempFile (temp_count w)) =
        Some content"
      by (simp add: after_editor_fields)
    from h have "editor E (editor_count w) (json_dumps E data @ nl) = (True, content)"
      "json_loads E content = None" "stdin w = answer # rest"
      "lower (strip answer) \<noteq> ''n''" "json_loads E (json_dumps E data) = Some original"
      by simp_all
    with assms(2) show "open_in_editor E data w =
        finally_unlink (TempFile (temp_count w))
          (open_in_editor E original ((after_editor E data w)\<lparr>stdin := rest\<rparr>))"
      by (rule open_in_editor_retry)
  qed
  from own last retry all show ?thesis by blast
qed

theorem open_in_editor_removes_temp_files_witness:
  "files (snd (open_in_editor demo_env demo_bit (demo_world [[]] 0))) (TempFile 0) = None \<and>
   files ((after_editor demo_env demo_bit (demo_world [[]] 0))\<lparr>stdin := []\<rparr>) (TempFile 0) =
     Some ''{'' \<and>
   temp_count (snd (open_in_editor demo_env demo_bit (demo_world [[]] 0))) = 2 \<and>
   files (snd (open_in_editor demo_env demo_bit (demo_world [[]] 0))) (TempFile 1) = None"
proof -
  define r where "r = fst (open_in_editor demo_env demo_bit (demo_world [[]] 0))"
  define w' where "w' = snd (open_in_editor demo_env demo_bit (demo_world [[]] 0))"
  have run: "open_in_editor demo_env demo_bit (demo_world [[]] 0) = (r, w')"
    by (simp add: r_def w'_def)
  have written: "temp_write demo_env s = None" for s
    by (simp add: demo_env_def)
  have count: "temp_count w' = 2"
    unfolding w'_def by (simp add: open_in_editor_unfold demo_simps)
  note gone = open_in_editor_removes_temp_files[OF run written]
  from gone have 1: "files w' (TempFile 0) = None"
    by (simp add: demo_world_def)
  have broken: "editor demo_env (editor_count (demo_world [[]] 0))
        (json_dumps demo_env demo_bit @ nl) = (True, ''{'') \<and>
      json_loads demo_env ''{'' = None \<and> stdin (demo_world [[]] 0) = [] # [] \<and>
      lower (strip []) \<noteq> ''n'' \<and> json_loads demo_env (json_dumps demo_env demo_bit) =
        Some demo_bit"
    by (simp add: demo_simps)
  from gone[THEN conjunct2, THEN conjunct2, THEN conjunct1, rule_format, OF broken]
  have 2: "files ((after_editor demo_env demo_bit (demo_world [[]] 0))\<lparr>stdin := []\<rparr>)
      (TempFile 0) = Some ''{''"
    by (simp add: demo_world_def)
  from gone[THEN conjunct2, THEN conjunct2, THEN conjunct2] written count
  have 3: "files w' (TempFile 1) = None"
    by (simp add: demo_world_def)
  from 1 2 count 3 show ?thesis unfolding w'_def by (intro conjI)
qed

text \<open>
  C10. The loop checks nothing but the syntax: whatever value the saved text parses to
  (a list, \<^verbatim>\<open>null\<close>, a number, a dict without \<^verbatim>\<open>title\<close>) is returned. \<^verbatim>\<open>add_bit\<close> on a
  value that is not a dict with a \<^verbatim>\<open>title\<close> key raises and leaves the world, and so the
  store, as it was: once the store is read, \<^verbatim>\<open>bit['title']\<close> raises \<^verbatim>\<open>TypeError\<close> on a
  value that is not a dict and \<^verbatim>\<open>KeyError\<close> on a dict without the key.
\<close>

theorem no_schema_validation:
  "(temp_write E (json_dumps E data @ nl) = None \<and>
      editor E (editor_count w) (json_dumps E data @ nl) = (True, content) \<and>
      json_loads E content = Some v
      \<longrightarrow> fst (open_in_editor E data w) = Return v) \<and>
   (\<not> has_title_key v \<longrightarrow> (\<exists>e. add_bit E v w1 = (Raise e, w1))) \<and>
   (files w1 BitsJson = Some stored \<and> json_loads E stored = Some bits
      \<longrightarrow> ((\<forall>kvs. v \<noteq> JObj kvs) \<longrightarrow> add_bit E v w1 = (Raise TypeError, w1)) \<and>
          (\<forall>kvs. v = JObj kvs \<and> map_of kvs ''title'' = None
             \<longrightarrow> add_bit E v w1 = (Raise KeyError, w1)))"
proof (intro conjI impI)
  assume "temp_write E (json_dumps E data @ nl) = None \<and>
      editor E (editor_count w) (json_dumps E data @ nl) = (True, content) \<and>
      json_loads E content = Some v"
  then show "fst (open_in_editor E data w) = Return v"
    by (simp add: open_in_editor_valid)
next
  assume "\<not> has_title_key v"
  then show "\<exists>e. add_bit E v w1 = (Raise e, w1)"
    by (cases v) (auto simp: add_bit_def has_title_key_def split: option.splits)
next
  assume "files w1 BitsJson = Some stored \<and> json_loads E stored = Some bits"
    and "\<forall>kvs. v \<noteq> JObj kvs"
  then show "add_bit E v w1 = (Raise TypeError, w1)"
    by (cases v) (auto simp: add_bit_def)
next
  assume "files w1 BitsJson = Some stored \<and> json_loads E stored = Some bits"
  then show "\<forall>kvs. v = JObj kvs \<and> map_of kvs ''title'' = None
             \<longrightarrow> add_bit E v w1 = (Raise KeyError, w1)"
    by (auto simp: add_bit_def)
qed

theorem no_schema_validation_witness:
  "fst (open_in_editor demo_env demo_bit (demo_world [] 2)) = Return (JArr []) \<and>
   add_bit demo_env (JArr []) (demo_world [] 3) = (Raise TypeError, demo_world [] 3) \<and>
   add_bit demo_env JNull (demo_world [] 3) = (Raise TypeError, demo_world [] 3) \<and>
   add_bit demo_env (JInt 42) (demo_world [] 3) = (Raise TypeError, demo_world [] 3) \<and>
   add_bit demo_env (JObj [(''url'', JStr ''http://x'')]) (demo_world [] 3) =
     (Raise KeyError, demo_world [] 3)"
proof -
  have saved: "temp_write demo_env (json_dumps demo_env demo_bit @ nl) = None \<and>
      editor demo_env (editor_count (demo_world [] 2))
      (json_dumps demo_env demo_bit @ nl) = (True, ''[]'') \<and>
      json_loads demo_env ''[]'' = Some (JArr [])"
    by (simp add: demo_simps)
  have store: "files (demo_world [] 3) BitsJson = Some (demo_store_text @ nl) \<and>
      json_loads demo_env (demo_store_text @ nl) = Some (JArr [demo_older])"
    by (simp add: demo_simps)
  note a = no_schema_validation[of demo_env demo_bit "demo_world [] 2" "''[]''" "JArr []"]
  note b = no_schema_validation[of demo_env _ _ _ _ "demo_world [] 3" "demo_store_text @ nl"
      "JArr [demo_older]"]
  from a saved have 1: "fst (open_in_editor demo_env demo_bit (demo_world [] 2)) = Return (JArr [])"
    by blast
  from b[of _ _ _ "JArr []"] store
  have 2: "add_bit demo_env (JArr []) (demo_world [] 3) = (Raise TypeError, demo_world [] 3)"
    by blast
  from b[of _ _ _ JNull] store
  have 3: "add_bit demo_env JNull (demo_world [] 3) = (Raise TypeError, demo_world [] 3)"
    by blast
  from b[of _ _ _ "JInt 42"] store
  have 4: "add_bit demo_env (JInt 42) (demo_world [] 3) = (Raise TypeError, demo_world [] 3)"
    by blast
  from b[of _ _ _ "JObj [(''url'', JStr ''http://x'')]"] store
  have 5: "add_bit demo_env (JObj [(''url'', JStr ''http://x'')]) (demo_world [] 3) =
     (Raise KeyError, demo_world [] 3)"
    by simp
  from 1 2 3 4 5 show ?thesis by simp
qed

section \<open>The store appender\<close>

lemma map_of_del_if_falsy:
  "map_of (del_if_falsy key kvs) k =
     (if k = key \<and> (\<exists>v. map_of kvs key = Some v \<and> \<not> truthy v) then None else map_of kvs k)"
  by (auto simp: del_if_falsy_def AList.delete_conv' split: option.splits)

lemma del_if_falsy_clean:
  "(\<And>v. map_of kvs key = Some v \<Longrightarrow> truthy v) \<Longrightarrow> del_if_falsy key kvs = kvs"
  by (auto simp: del_if_falsy_def split: option.splits)

lemma map_of_del_if_falsy_other:
  "k \<noteq> key \<Longrightarrow> map_of (del_if_falsy key kvs) k = map_of kvs k"
  by (auto simp: map_of_del_if_falsy)

lemma map_of_remove_empty:
  "map_of (remove_empty kvs) k =
     (if k \<in> {''url'', ''content'', ''via'', ''tags''} \<and>
         (\<exists>v. map_of kvs k = Some v \<and> \<not> truthy v)
      then None else map_of kvs k)"
proof -
  consider "k = ''url''" | "k = ''content''" | "k = ''via''" | "k = ''tags''"
    | "k \<notin> {''url'', ''content'', ''via'', ''tags''}" by auto
  then show ?thesis
  proof cases
    case 1
    then show ?thesis
      by (simp add: remove_empty_def map_of_del_if_falsy_other) (auto simp: map_of_del_if_falsy)
  next
    case 2
    then show ?thesis
      by (simp add: remove_empty_def map_of_del_if_falsy_other)
        (auto simp: map_of_del_if_falsy map_of_del_if_falsy_other)
  next
    case 3
    then show ?thesis
      by (simp add: remove_empty_def map_of_del_if_falsy_other)
        (auto simp: map_of_del_if_falsy map_of_del_if_falsy_other)
  next
    case 4
    then show ?thesis
      by (auto simp: remove_empty_def map_of_del_if_falsy map_of_del_if_falsy_other)
  next
    case 5
    then show ?thesis
      by (simp add: remove_empty_def map_of_del_if_falsy_other)
  qed
qed

lemma remove_empty_idem: "remove_empty (remove_empty kvs) = remove_empty kvs"
proof -
  define r where "r = remove_empty kvs"
  have clean: "truthy v"
    if "map_of r k = Some v" "k \<in> {''url'', ''content'', ''via'', ''tags''}" for k v
    using that unfolding r_def by (auto simp: map_of_remove_empty split: if_splits)
  have 1: "del_if_falsy ''url'' r = r"
    using clean[of "''url''"] by (intro del_if_falsy_clean) simp
  have 2: "del_if_falsy ''content'' r = r"
    using clean[of "''content''"] by (intro del_if_falsy_clean) simp
  have 3: "del_if_falsy ''via'' r = r"
    using clean[of "''via''"] by (intro del_if_falsy_clean) simp
  have 4: "del_if_falsy ''tags'' r = r"
    using clean[of "''tags''"] by (intro del_if_falsy_clean) simp
  have "remove_empty r = r"
    by (simp add: remove_empty_def[of r] 1 2 3 4)
  then show ?thesis by (simp add: r_def)
qed

lemma map_of_add_metadata:
  "map_of (add_metadata E title kvs) =
     (map_of kvs)(''id'' \<mapsto> JStr (slugify title @ ''-'' @ str_int (time_ms E)),
                  ''date'' \<mapsto> JStr (strftime_ymd (local_date E)))"
  by (simp add: add_metadata_def AList.update_conv')

text \<open>What \<^const>\<open>add_bit\<close> does to a dict with a string title when the store holds a list.\<close>

lemma add_bit_writes:
  assumes "files w BitsJson = Some stored"
    and "json_loads E stored = Some (JArr old)"
    and "map_of kvs ''title'' = Some (JStr title)"
  shows "files (snd (add_bit E (JObj kvs) w)) BitsJson =
     Some (json_dumps E (JArr (JObj (remove_empty (add_metadata E title kvs)) # old)) @ nl)"
  using assms by (simp add: add_bit_def Let_def)

lemma is_digit_char_of: "k < 10 \<Longrightarrow> is_digit (char_of (48 + (k::nat)))"
  by (simp add: is_digit_def)

lemma digits_are_digits: "digits n \<noteq> [] \<and> list_all is_digit (digits n)"
proof (induction n rule: digits.induct)
  case (1 n)
  show ?case
  proof (cases "n < 10")
    case True
    then show ?thesis by (subst (1 2) digits.simps) (simp add: is_digit_char_of)
  next
    case False
    with 1 have "list_all is_digit (digits (n div 10))" by simp
    moreover have "is_digit (char_of (48 + n mod 10))" by (rule is_digit_char_of) simp
    ultimately show ?thesis using False by (subst (1 2) digits.simps) simp
  qed
qed

lemma length_digits:
  "length (digits n) = (if n < 10 then 1 else Suc (length (digits (n div 10))))"
  by (subst digits.simps) simp

lemma length_digits_year: "1000 \<le> y \<Longrightarrow> y \<le> 9999 \<Longrightarrow> length (digits y) = 4"
proof -
  assume y: "1000 \<le> y" "y \<le> 9999"
  then have a: "\<not> y < 10" "\<not> y div 10 < 10" "\<not> y div 10 div 10 < 10" "y div 10 div 10 div 10 < 10"
    by simp_all
  show ?thesis
    by (simp add: length_digits[of y] length_digits[of "y div 10"]
        length_digits[of "y div 10 div 10"] length_digits[of "y div 10 div 10 div 10"] a)
qed

lemma pad2_two_digits: "n \<le> 99 \<Longrightarrow> length (pad2 n) = 2 \<and> list_all is_digit (pad2 n)"
proof -
  assume n: "n \<le> 99"
  have "is_digit CHR ''0''" by (simp add: is_digit_def)
  moreover have "n div 10 < 10" using n by simp
  then have "length (digits n) = (if n < 10 then 1 else 2)"
    by (simp add: length_digits[of n] length_digits[of "n div 10"])
  ultimately show ?thesis
    using digits_are_digits[of n] by (simp add: pad2_def)
qed

lemma matches_date_parts:
  assumes "length ys = 4" "length ms = 2" "length ds = 2"
    and "list_all is_digit ys" "list_all is_digit ms" "list_all is_digit ds"
  shows "matches_date (ys @ ''-'' @ ms @ ''-'' @ ds)"
proof -
  let ?s = "ys @ ''-'' @ ms @ ''-'' @ ds"
  have 1: "length ?s = 10" using assms(1-3) by simp
  have 2: "take 4 ?s = ys" using assms(1) by simp
  have 3: "?s ! 4 = CHR ''-''" using assms(1) by (simp add: nth_append)
  have 4: "drop 5 ?s = ms @ ''-'' @ ds" using assms(1) by simp
  have 5: "take 2 (drop 5 ?s) = ms" unfolding 4 using assms(2) by simp
  have 6: "drop 8 ?s = ds" using assms(1,2) by simp
  have e: "(5::nat) + 2 = 7" by simp
  have "(drop 5 ?s) ! 2 = ?s ! (5 + 2)" by (rule nth_drop) (simp add: assms(1-3))
  then have a: "?s ! 7 = (drop 5 ?s) ! 2" unfolding e by (rule sym)
  have "(ms @ ''-'' @ ds) ! 2 = CHR ''-''" using assms(2) by (simp add: nth_append)
  then have 7: "?s ! 7 = CHR ''-''" unfolding a 4 .
  show ?thesis
    unfolding matches_date_def 2 3 5 6 7 1 using assms(4-6) by simp
qed

lemma strftime_matches_date:
  assumes "1000 \<le> y" "y \<le> 9999" "m \<le> 99" "d \<le> 99"
  shows "matches_date (strftime_ymd (y, m, d))"
proof -
  have "length (digits y) = 4" using assms(1,2) by (rule length_digits_year)
  moreover have "list_all is_digit (digits y)" using digits_are_digits by blast
  moreover have "length (pad2 m) = 2" "list_all is_digit (pad2 m)"
    using pad2_two_digits[OF assms(3)] by blast+
  moreover have "length (pad2 d) = 2" "list_all is_digit (pad2 d)"
    using pad2_two_digits[OF assms(4)] by blast+
  ultimately have "matches_date (digits y @ ''-'' @ pad2 m @ ''-'' @ pad2 d)"
    by (intro matches_date_parts)
  then show ?thesis by (simp only: strftime_ymd_def prod.case)
qed

lemma slugify_Example: "slugify ''Example'' = ''example''"
  by code_simp

lemma example_id_matches:
  "0 \<le> t \<Longrightarrow> matches_example_id (slugify ''Example'' @ ''-'' @ str_int t)"
proof -
  assume "0 \<le> t"
  then have s: "str_int t = digits (nat t)" by (simp add: str_int_def)
  have "slugify ''Example'' @ ''-'' @ str_int t = ''example-'' @ digits (nat t)"
    unfolding s slugify_Example by simp
  moreover have "matches_example_id (''example-'' @ ds)" if "ds \<noteq> []" "list_all is_digit ds" for ds
    using that unfolding matches_example_id_def by simp
  ultimately show ?thesis using digits_are_digits[of "nat t"] by simp
qed
lemma demo_clock:
  "str_int 1700000000000 = ''1700000000000''"
  "strftime_ymd (2023, 11, 14) = ''2023-11-14''"
  by (simp add: str_int_def strftime_ymd_def pad2_def digits.simps, code_simp?)+

lemma demo_texts:
  "demo_dumps (JArr [demo_final, demo_older]) = demo_new_store_text"
  "demo_new_store_text \<noteq> demo_store_text"
  "matches_example_id ''example-1700000000000''"
  "matches_date ''2023-11-14''"
  by code_simp+

lemma demo_record:
  "remove_empty (add_metadata demo_env ''Example''
     [(''title'', JStr ''Example''), (''url'', JStr []), (''tags'', JArr [])]) =
   [(''title'', JStr ''Example''), (''id'', JStr ''example-1700000000000''),
    (''date'', JStr ''2023-11-14'')]"
  by (simp add: add_metadata_def remove_empty_def del_if_falsy_def demo_env_def
      demo_clock slugify_Example)

lemmas demo_add_bit = demo_record demo_clock demo_texts

text \<open>
  C5. For a confirmed dict with a string \<^verbatim>\<open>title\<close> and a store that holds a list,
  \<^verbatim>\<open>add_bit\<close> writes the list with the finished record in front. In that record each of
  \<^verbatim>\<open>url\<close>, \<^verbatim>\<open>content\<close>, \<^verbatim>\<open>via\<close> and \<^verbatim>\<open>tags\<close> is absent whenever the dict had it with a
  falsy (empty) value, and every other key of the four is as it was; a dict with
  \<^verbatim>\<open>url=""\<close> and \<^verbatim>\<open>tags=[]\<close> is stored with neither key. Stripping a second time
  changes nothing.
\<close>

theorem empty_optional_fields_stripped:
  assumes "files w BitsJson = Some stored"
    and "json_loads E stored = Some (JArr old)"
    and "map_of kvs ''title'' = Some (JStr title)"
  shows
    "files (snd (add_bit E (JObj kvs) w)) BitsJson =
       Some (json_dumps E (JArr (JObj (remove_empty (add_metadata E title kvs)) # old)) @ nl) \<and>
     (\<forall>key v. key \<in> {''url'', ''content'', ''via'', ''tags''} \<and>
          map_of kvs key = Some v \<and> \<not> truthy v
        \<longrightarrow> map_of (remove_empty (add_metadata E title kvs)) key = None \<and>
            key \<notin> fst ` set (remove_empty (add_metadata E title kvs))) \<and>
     (\<forall>key v. key \<in> {''url'', ''content'', ''via'', ''tags''} \<and>
          map_of kvs key = Some v \<and> truthy v
        \<longrightarrow> map_of (remove_empty (add_metadata E title kvs)) key = Some v) \<and>
     (map_of kvs ''url'' = Some (JStr []) \<and> map_of kvs ''tags'' = Some (JArr [])
        \<longrightarrow> map_of (remove_empty (add_metadata E title kvs)) ''url'' = None \<and>
            map_of (remove_empty (add_metadata E title kvs)) ''tags'' = None) \<and>
     remove_empty (remove_empty (add_metadata E title kvs)) =
       remove_empty (add_metadata E title kvs)"
proof -
  let ?final = "remove_empty (add_metadata E title kvs)"
  have same: "map_of (add_metadata E title kvs) key = map_of kvs key"
    if "key \<in> {''url'', ''content'', ''via'', ''tags''}" for key
    using that by (auto simp: map_of_add_metadata)
  have c1: "files (snd (add_bit E (JObj kvs) w)) BitsJson =
       Some (json_dumps E (JArr (JObj ?final # old)) @ nl)"
    by (rule add_bit_writes[OF assms])
  have gone: "map_of ?final key = None \<and> key \<notin> fst ` set ?final"
    if "key \<in> {''url'', ''content'', ''via'', ''tags''} \<and>
        map_of kvs key = Some v \<and> \<not> truthy v" for key v
  proof -
    from that have k: "key \<in> {''url'', ''content'', ''via'', ''tags''}" by simp
    have "map_of (add_metadata E title kvs) key = Some v" using that same[OF k] by simp
    with that k have "map_of ?final key = None"
      unfolding map_of_remove_empty by simp
    then show ?thesis by (simp add: map_of_eq_None_iff)
  qed
  then have c2: "\<forall>key v. key \<in> {''url'', ''content'', ''via'', ''tags''} \<and>
          map_of kvs key = Some v \<and> \<not> truthy v
        \<longrightarrow> map_of ?final key = None \<and> key \<notin> fst ` set ?final"
    by (intro allI impI)
  have kept: "map_of ?final key = Some v"
    if "key \<in> {''url'', ''content'', ''via'', ''tags''} \<and>
        map_of kvs key = Some v \<and> truthy v" for key v
  proof -
    from that have k: "key \<in> {''url'', ''content'', ''via'', ''tags''}" by simp
    have "map_of (add_metadata E title kvs) key = Some v" using that same[OF k] by simp
    with that show ?thesis
      unfolding map_of_remove_empty by simp
  qed
  then have c3: "\<forall>key v. key \<in> {''url'', ''content'', ''via'', ''tags''} \<and>
          map_of kvs key = Some v \<and> truthy v
        \<longrightarrow> map_of ?final key = Some v"
    by (intro allI impI)
  have c4: "map_of kvs ''url'' = Some (JStr []) \<and> map_of kvs ''tags'' = Some (JArr [])
        \<longrightarrow> map_of ?final ''url'' = None \<and> map_of ?final ''tags'' = None"
  proof
    assume h: "map_of kvs ''url'' = Some (JStr []) \<and> map_of kvs ''tags'' = Some (JArr [])"
    have "map_of ?final ''url'' = None"
      using gone[of "''url''" "JStr []"] h by simp
    moreover have "map_of ?final ''tags'' = None"
      using gone[of "''tags''" "JArr []"] h by simp
    ultimately show "map_of ?final ''url'' = None \<and> map_of ?final ''tags'' = None" by simp
  qed
  have c5: "remove_empty ?final = ?final" by (rule remove_empty_idem)
  show ?thesis
    by (intro conjI) (rule c1, rule c2, rule c3, rule c4, rule c5)
qed

theorem empty_optional_fields_stripped_witness:
  "files (snd (add_bit demo_env demo_bit (demo_world [] 0))) BitsJson =
     Some (demo_new_store_text @ nl) \<and>
   map_of [(''title'', JStr ''Example''), (''id'', JStr ''example-1700000000000''),
           (''date'', JStr ''2023-11-14'')] ''url'' = None \<and>
   map_of [(''title'', JStr ''Example''), (''id'', JStr ''example-1700000000000''),
           (''date'', JStr ''2023-11-14'')] ''tags'' = None"
proof -
  have store: "files (demo_world [] 0) BitsJson = Some (demo_store_text @ nl)"
    and old: "json_loads demo_env (demo_store_text @ nl) = Some (JArr [demo_older])"
    and title: "map_of [(''title'', JStr ''Example''), (''url'', JStr []), (''tags'', JArr [])]
        ''title'' = Some (JStr ''Example'')"
    by (simp_all add: demo_simps)
  have dumped: "json_dumps demo_env (JArr [JObj [(''title'', JStr ''Example''),
      (''id'', JStr ''example-1700000000000''), (''date'', JStr ''2023-11-14'')], demo_older]) =
      demo_new_store_text"
    using demo_texts(1) by (simp add: demo_env_def demo_final_def)
  note t = empty_optional_fields_stripped[OF store old title, unfolded demo_record dumped]
  from t have "files (snd (add_bit demo_env demo_bit (demo_world [] 0))) BitsJson =
     Some (demo_new_store_text @ nl)"
    unfolding demo_bit_def by (rule conjunct1)
  then show ?thesis by simp
qed

text \<open>
  C6. Under the same conditions the list \<^verbatim>\<open>add_bit\<close> writes has the finished record at
  index 0 and, behind it, every record the store held, unchanged and in its order; a
  store that held \<open>[B1]\<close> holds \<open>[B2, B1]\<close> after \<open>B2\<close> is added.
\<close>

theorem new_bit_is_prepended:
  assumes "files w BitsJson = Some stored"
    and "json_loads E stored = Some (JArr old)"
    and "map_of kvs ''title'' = Some (JStr title)"
  shows
    "(\<exists>final.
        files (snd (add_bit E (JObj kvs) w)) BitsJson =
          Some (json_dumps E (JArr (JObj final # old)) @ nl) \<and>
        map_of final ''title'' = Some (JStr title) \<and>
        (JObj final # old) ! 0 = JObj final \<and>
        (\<forall>i < length old. (JObj final # old) ! Suc i = old ! i) \<and>
        (\<forall>b1. old = [b1] \<longrightarrow> JObj final # old = [JObj final, b1]))"
proof -
  let ?final = "remove_empty (add_metadata E title kvs)"
  have 1: "map_of ?final ''title'' = Some (JStr title)"
    using assms(3) by (simp add: map_of_remove_empty map_of_add_metadata)
  have 2: "files (snd (add_bit E (JObj kvs) w)) BitsJson =
       Some (json_dumps E (JArr (JObj ?final # old)) @ nl)"
    by (rule add_bit_writes[OF assms])
  have 3: "(JObj ?final # old) ! 0 = JObj ?final" by simp
  have 4: "\<forall>i < length old. (JObj ?final # old) ! Suc i = old ! i" by simp
  have 5: "\<forall>b1. old = [b1] \<longrightarrow> JObj ?final # old = [JObj ?final, b1]" by simp
  show ?thesis
    by (rule exI[of _ ?final]) (intro conjI, rule 2, rule 1, rule 3, rule 4, rule 5)
qed

theorem new_bit_is_prepended_witness:
  "\<exists>final. files (snd (add_bit demo_env demo_bit (demo_world [] 0))) BitsJson =
     Some (json_dumps demo_env (JArr [JObj final, demo_older]) @ nl)"
proof -
  have store: "files (demo_world [] 0) BitsJson = Some (demo_store_text @ nl)"
    and old: "json_loads demo_env (demo_store_text @ nl) = Some (JArr [demo_older])"
    and title: "map_of [(''title'', JStr ''Example''), (''url'', JStr []), (''tags'', JArr [])]
        ''title'' = Some (JStr ''Example'')"
    by (simp_all add: demo_simps)
  from new_bit_is_prepended[OF store old title]
  obtain final where
    "files (snd (add_bit demo_env (JObj [(''title'', JStr ''Example''), (''url'', JStr []),
        (''tags'', JArr [])]) (demo_world [] 0))) BitsJson =
       Some (json_dumps demo_env (JArr (JObj final # [demo_older])) @ nl)"
    by (elim exE conjE)
  then have "\<exists>final. files (snd (add_bit demo_env demo_bit (demo_world [] 0))) BitsJson =
       Some (json_dumps demo_env (JArr [JObj final, demo_older]) @ nl)"
    unfolding demo_bit_def by (rule exI)
  then show ?thesis .
qed

text \<open>
  C7. Under the same conditions the stored record has \<^verbatim>\<open>id\<close> equal to
  \<^verbatim>\<open>slugify(title)\<close>, a hyphen and the clock's milliseconds since the epoch in decimal,
  and \<^verbatim>\<open>date\<close> equal to the local date as \<^verbatim>\<open>strftime("%Y-%m-%d")\<close> prints it. With a
  clock that is not before the epoch and a four-digit year, the id of a bit titled
  \<^verbatim>\<open>Example\<close> matches \<^verbatim>\<open>example-\d+\<close> and the date matches \<^verbatim>\<open>\d{4}-\d{2}-\d{2}\<close>.
\<close>

theorem id_and_date_derived:
  assumes "files w BitsJson = Some stored"
    and "json_loads E stored = Some (JArr old)"
    and "map_of kvs ''title'' = Some (JStr title)"
    and "0 \<le> time_ms E"
    and "local_date E = (y, m, d)"
    and "1000 \<le> y" "y \<le> 9999" "1 \<le> m" "m \<le> 12" "1 \<le> d" "d \<le> 31"
  shows
    "(\<exists>final.
        files (snd (add_bit E (JObj kvs) w)) BitsJson =
          Some (json_dumps E (JArr (JObj final # old)) @ nl) \<and>
        map_of final ''id'' = Some (JStr (slugify title @ ''-'' @ str_int (time_ms E))) \<and>
        map_of final ''date'' = Some (JStr (strftime_ymd (local_date E)))) \<and>
     matches_date (strftime_ymd (local_date E)) \<and>
     (title = ''Example''
        \<longrightarrow> matches_example_id (slugify title @ ''-'' @ str_int (time_ms E)))"
proof -
  let ?final = "remove_empty (add_metadata E title kvs)"
  have a: "files (snd (add_bit E (JObj kvs) w)) BitsJson =
       Some (json_dumps E (JArr (JObj ?final # old)) @ nl)"
    by (rule add_bit_writes[OF assms(1-3)])
  have b: "map_of ?final ''id'' = Some (JStr (slugify title @ ''-'' @ str_int (time_ms E)))"
    by (simp add: map_of_remove_empty map_of_add_metadata)
  have c: "map_of ?final ''date'' = Some (JStr (strftime_ymd (local_date E)))"
    by (simp add: map_of_remove_empty map_of_add_metadata)
  have 1: "\<exists>final.
        files (snd (add_bit E (JObj kvs) w)) BitsJson =
          Some (json_dumps E (JArr (JObj final # old)) @ nl) \<and>
        map_of final ''id'' = Some (JStr (slugify title @ ''-'' @ str_int (time_ms E))) \<and>
        map_of final ''date'' = Some (JStr (strftime_ymd (local_date E)))"
    by (rule exI[of _ ?final]) (intro conjI, rule a, rule b, rule c)
  have "m \<le> 99" "d \<le> 99" using assms(9,11) by simp_all
  with assms(6,7) have "matches_date (strftime_ymd (y, m, d))"
    by (rule strftime_matches_date)
  then have 2: "matches_date (strftime_ymd (local_date E))"
    unfolding assms(5) .
  have 3: "title = ''Example''
        \<longrightarrow> matches_example_id (slugify title @ ''-'' @ str_int (time_ms E))"
  proof
    assume "title = ''Example''"
    then show "matches_example_id (slugify title @ ''-'' @ str_int (time_ms E))"
      using example_id_matches[OF assms(4)] by simp
  qed
  show ?thesis
    by (intro conjI) (rule 1, rule 2, rule 3)
qed

theorem id_and_date_derived_witness:
  "matches_date (strftime_ymd (local_date demo_env)) \<and>
   matches_example_id (slugify ''Example'' @ ''-'' @ str_int (time_ms demo_env)) \<and>
   slugify ''Example'' @ ''-'' @ str_int (time_ms demo_env) = ''example-1700000000000'' \<and>
   strftime_ymd (local_date demo_env) = ''2023-11-14''"
proof -
  have store: "files (demo_world [] 0) BitsJson = Some (demo_store_text @ nl)"
    and old: "json_loads demo_env (demo_store_text @ nl) = Some (JArr [demo_older])"
    and title: "map_of [(''title'', JStr ''Example''), (''url'', JStr []), (''tags'', JArr [])]
        ''title'' = Some (JStr ''Example'')"
    and clock: "0 \<le> time_ms demo_env" "local_date demo_env = (2023, 11, 14)"
    by (simp_all add: demo_simps)
  have range: "(1000::nat) \<le> 2023" "(2023::nat) \<le> 9999" "(1::nat) \<le> 11" "(11::nat) \<le> 12"
    "(1::nat) \<le> 14" "(14::nat) \<le> 31"
    by simp_all
  note t = id_and_date_derived[OF store old title clock range]
  have 1: "matches_date (strftime_ymd (local_date demo_env))"
    using t by (elim conjE)
  have 2: "matches_example_id (slugify ''Example'' @ ''-'' @ str_int (time_ms demo_env))"
    using t by (elim conjE) simp
  have 3: "slugify ''Example'' @ ''-'' @ str_int (time_ms demo_env) = ''example-1700000000000''"
    by (simp add: demo_env_def demo_clock slugify_Example)
  have 4: "strftime_ymd (local_date demo_env) = ''2023-11-14''"
    by (simp add: demo_env_def demo_clock)
  from 1 2 3 4 show ?thesis by (intro conjI)
qed

section \<open>The structuring call\<close>

lemma first_tool_use_found:
  "\<forall>b\<in>set pre. \<forall>i. b \<noteq> ToolUseBlock i \<Longrightarrow>
   first_tool_use (pre @ ToolUseBlock inp # post) = Some inp"
proof (induction pre)
  case Nil
  show ?case by simp
next
  case (Cons b pre)
  then show ?case by (cases b) simp_all
qed

lemma first_tool_use_missing:
  "\<forall>b\<in>set bs. \<forall>i. b \<noteq> ToolUseBlock i \<Longrightarrow> first_tool_use bs = None"
proof (induction bs)
  case Nil
  show ?case by simp
next
  case (Cons b bs)
  then show ?case by (cases b) simp_all
qed

lemma demo_env_fields:
  "json_loads demo_env = demo_loads"
  "json_dumps demo_env = demo_dumps"
  "editor demo_env = demo_editor"
  "api_key demo_env = Some ''sk-example''"
  "messages_create demo_env (prompt ''Example'') = Inr [ToolUseBlock demo_bit]"
  "build_bits demo_env s = True"
  by (simp_all add: demo_env_def)

lemma demo_written: "temp_write demo_env s = None"
  by (simp add: demo_env_def)

text \<open>
  C9, as the code has it. The claim says the structuring step returns, for every
  non-empty text, a mapping with a non-empty \<^verbatim>\<open>title\<close>. \<^verbatim>\<open>structure_with_claude\<close> returns
  \<^verbatim>\<open>block.input\<close> of the reply as it is and checks nothing in it: a reply whose tool
  input has an empty title is returned with the empty title, and a reply without a
  tool_use block makes the function raise
  \<^verbatim>\<open>ValueError("Claude didn't return structured output")\<close>, which the code provides for.
\<close>

theorem structure_may_lack_title:
  "structure_with_claude
     (demo_env\<lparr>messages_create := \<lambda>p. Inr [ToolUseBlock (JObj [(''title'', JStr [])])]\<rparr>)
     ''Example'' = Return (JObj [(''title'', JStr [])]) \<and>
   \<not> returns_titled (structure_with_claude
     (demo_env\<lparr>messages_create := \<lambda>p. Inr [ToolUseBlock (JObj [(''title'', JStr [])])]\<rparr>)
     ''Example'') \<and>
   structure_with_claude
     (demo_env\<lparr>messages_create := \<lambda>p. Inr [TextBlock ''Done.'']\<rparr>) ''Example'' =
     Raise (ValueError ''Claude didn't return structured output'') \<and>
   \<not> returns_titled (structure_with_claude
     (demo_env\<lparr>messages_create := \<lambda>p. Inr [TextBlock ''Done.'']\<rparr>) ''Example'')"
  by (simp add: structure_with_claude_def returns_titled_def has_nonempty_title_def)

text \<open>
  C9, amended. For every text: when the reply holds a tool_use block,
  \<^verbatim>\<open>structure_with_claude\<close> returns the input of the first such block unchanged, so the
  returned mapping has a non-empty \<^verbatim>\<open>title\<close> exactly when the service put one there;
  when the reply holds none it raises
  \<^verbatim>\<open>ValueError("Claude didn't return structured output")\<close>; an exception of the call
  itself is passed on.
\<close>

theorem structure_returns_first_tool_input:
  "(\<forall>pre inp post.
      messages_create E (prompt text) = Inr (pre @ ToolUseBlock inp # post) \<and>
      (\<forall>b\<in>set pre. \<forall>i. b \<noteq> ToolUseBlock i)
      \<longrightarrow> structure_with_claude E text = Return inp \<and>
          returns_titled (structure_with_claude E text) = has_nonempty_title inp) \<and>
   (\<forall>content.
      messages_create E (prompt text) = Inr content \<and>
      (\<forall>b\<in>set content. \<forall>i. b \<noteq> ToolUseBlock i)
      \<longrightarrow> structure_with_claude E text =
            Raise (ValueError ''Claude didn't return structured output'')) \<and>
   (\<forall>e. messages_create E (prompt text) = Inl e \<longrightarrow> structure_with_claude E text = Raise e)"
proof (intro conjI allI impI)
  fix pre inp post
  assume h: "messages_create E (prompt text) = Inr (pre @ ToolUseBlock inp # post) \<and>
      (\<forall>b\<in>set pre. \<forall>i. b \<noteq> ToolUseBlock i)"
  then have "first_tool_use (pre @ ToolUseBlock inp # post) = Some inp"
    by (intro first_tool_use_found) simp
  with h show r: "structure_with_claude E text = Return inp"
    by (simp add: structure_with_claude_def)
  show "returns_titled (structure_with_claude E text) = has_nonempty_title inp"
    unfolding r by (simp add: returns_titled_def)
next
  fix content
  assume h: "messages_create E (prompt text) = Inr content \<and>
      (\<forall>b\<in>set content. \<forall>i. b \<noteq> ToolUseBlock i)"
  then have "first_tool_use content = None"
    by (intro first_tool_use_missing) simp
  with h show "structure_with_claude E text =
      Raise (ValueError ''Claude didn't return structured output'')"
    by (simp add: structure_with_claude_def)
next
  fix e
  assume "messages_create E (prompt text) = Inl e"
  then show "structure_with_claude E text = Raise e"
    by (simp add: structure_with_claude_def)
qed

theorem structure_returns_first_tool_input_witness:
  "structure_with_claude demo_env ''Example'' = Return demo_bit \<and>
   returns_titled (structure_with_claude demo_env ''Example'') \<and>
   has_nonempty_title demo_bit"
proof -
  have reply: "messages_create demo_env (prompt ''Example'') =
      Inr ([] @ ToolUseBlock demo_bit # []) \<and>
      (\<forall>b\<in>set []. \<forall>i. b \<noteq> ToolUseBlock i)"
    by (simp add: demo_env_fields)
  note t = structure_returns_first_tool_input[of demo_env "''Example''", THEN conjunct1,
      rule_format, OF reply]
  have titled: "has_nonempty_title demo_bit"
    by (simp add: has_nonempty_title_def demo_bit_def)
  from t have a: "structure_with_claude demo_env ''Example'' = Return demo_bit"
    by (rule conjunct1)
  from t have b: "returns_titled (structure_with_claude demo_env ''Example'') =
      has_nonempty_title demo_bit"
    by (rule conjunct2)
  have c: "returns_titled (structure_with_claude demo_env ''Example'')"
    unfolding b by (rule titled)
  show ?thesis by (intro conjI) (rule a, rule c, rule titled)
qed

section \<open>The whole run\<close>

lemma files_get_user_input: "get_user_input w = (text, w1) \<Longrightarrow> files w1 = files w"
  by (auto simp: get_user_input_def split: prod.splits)

lemma files_py_input: "py_input w = Some (l, w') \<Longrightarrow> files w' = files w"
  by (auto simp: py_input_def split: list.splits)

lemma open_in_editor_editor_fails:
  assumes "temp_write E (json_dumps E data @ nl) = None"
    and "\<not> fst (editor E (editor_count w) (json_dumps E data @ nl))"
  shows "fst (open_in_editor E data w) = Raise CalledProcessError"
  using assms(2)
  by (subst open_in_editor_unfold[OF assms(1)])
     (simp add: Let_def finally_unlink_def after_editor_fields)

text \<open>\<^verbatim>\<open>main\<close> from the call of the editor on, once the bit has been structured.\<close>

lemma main_with_key:
  assumes "\<not> (api_key E = None \<or> api_key E = Some [])"
    and "get_user_input w = (text, w1)"
  shows "main E w =
     (if strip text = [] then (SystemExit (Status 0), w1)
      else
        (case structure_with_claude E text of
           Raise e \<Rightarrow> (SystemExit (Status 1), w1)
         | SystemExit a \<Rightarrow> (SystemExit a, w1)
         | Return bit0 \<Rightarrow>
             (case open_in_editor E bit0 w1 of
                (Raise e, w2) \<Rightarrow> (Raise e, w2)
              | (SystemExit a, w2) \<Rightarrow> (SystemExit a, w2)
              | (Return bit1, w2) \<Rightarrow>
                  (case py_input w2 of
                     None \<Rightarrow> (Raise EOFError, w2)
                   | Some (confirm, w3) \<Rightarrow>
                       if lower (strip confirm) = ''n'' then (SystemExit (Status 0), w3)
                       else add_bit E bit1 w3))))"
  unfolding main_def if_not_P[OF assms(1)] assms(2) prod.case ..

lemma main_without_key:
  "api_key E = None \<or> api_key E = Some [] \<Longrightarrow> main E w = (SystemExit (Status 1), w)"
  unfolding main_def by (rule if_P)

lemma main_after_structuring:
  assumes "\<not> (api_key E = None \<or> api_key E = Some [])"
    and "get_user_input w = (text, w1)" "strip text \<noteq> []"
    and "structure_with_claude E text = Return bit0"
    and "open_in_editor E bit0 w1 = (r, w2)"
  shows "main E w =
     (case r of
        Raise e \<Rightarrow> (Raise e, w2)
      | SystemExit a \<Rightarrow> (SystemExit a, w2)
      | Return bit1 \<Rightarrow>
          (case py_input w2 of
             None \<Rightarrow> (Raise EOFError, w2)
           | Some (confirm, w3) \<Rightarrow>
               if lower (strip confirm) = ''n'' then (SystemExit (Status 0), w3)
               else add_bit E bit1 w3))"
  unfolding main_with_key[OF assms(1,2)] using assms(3-5) by (cases r) simp_all

text \<open>
  C3. If the store file after a run of \<^verbatim>\<open>main\<close> differs from the store file before it,
  then the run had its API key, read a text that is not blank, got a bit from the
  structuring call, got a value back from the edit loop, read an answer other than
  \<^verbatim>\<open>n\<close> at "Add this bit?", and ended as \<^verbatim>\<open>add_bit\<close> on the edited bit did. So every run
  that ends earlier (no key, no input, a structuring failure, an editor failure, an
  abort of the edit loop, the end of the input or \<^verbatim>\<open>n\<close> at the confirmation) leaves the
  store as it was.
\<close>

theorem store_written_only_after_confirmation:
  assumes "files (snd (main E w)) BitsJson \<noteq> files w BitsJson"
  shows "\<exists>text w1 bit0 bit1 w2 confirm w3.
     api_key E \<noteq> None \<and> api_key E \<noteq> Some [] \<and>
     get_user_input w = (text, w1) \<and> strip text \<noteq> [] \<and>
     structure_with_claude E text = Return bit0 \<and>
     open_in_editor E bit0 w1 = (Return bit1, w2) \<and>
     py_input w2 = Some (confirm, w3) \<and> lower (strip confirm) \<noteq> ''n'' \<and>
     main E w = add_bit E bit1 w3 \<and>
     files w3 BitsJson = files w BitsJson"
proof -
  have key: "\<not> (api_key E = None \<or> api_key E = Some [])"
  proof
    assume "api_key E = None \<or> api_key E = Some []"
    then have "main E w = (SystemExit (Status 1), w)" by (rule main_without_key)
    with assms show False by simp
  qed
  obtain typed w1 where g: "get_user_input w = (typed, w1)" by force
  then have f1: "files w1 = files w" by (rule files_get_user_input)
  have nonblank: "strip typed \<noteq> []"
  proof
    assume "strip typed = []"
    then have "main E w = (SystemExit (Status 0), w1)"
      unfolding main_with_key[OF key g] by simp
    with f1 assms show False by simp
  qed
  obtain bit0 where s: "structure_with_claude E typed = Return bit0"
  proof (cases "structure_with_claude E typed")
    case (Return b)
    then show ?thesis by (rule that)
  next
    case (Raise e)
    with nonblank have "main E w = (SystemExit (Status 1), w1)"
      unfolding main_with_key[OF key g] by simp
    with f1 assms show ?thesis by simp
  next
    case (SystemExit a)
    with nonblank have "main E w = (SystemExit a, w1)"
      unfolding main_with_key[OF key g] by simp
    with f1 assms show ?thesis by simp
  qed
  obtain r w2 where o: "open_in_editor E bit0 w1 = (r, w2)" by force
  then have f2: "files w2 BitsJson = files w BitsJson"
    using open_in_editor_keeps_store f1 by simp
  note m = main_after_structuring[OF key g nonblank s o]
  obtain bit1 where r: "r = Return bit1"
  proof (cases r)
    case (Return b)
    then show ?thesis by (rule that)
  next
    case (Raise e)
    with m have "main E w = (Raise e, w2)" by simp
    with f2 assms show ?thesis by simp
  next
    case (SystemExit a)
    with m have "main E w = (SystemExit a, w2)" by simp
    with f2 assms show ?thesis by simp
  qed
  obtain confirm w3 where p: "py_input w2 = Some (confirm, w3)"
  proof (cases "py_input w2")
    case None
    with m r have "main E w = (Raise EOFError, w2)" by simp
    with f2 assms show ?thesis by simp
  next
    case (Some a)
    then show ?thesis by (cases a) (auto intro: that)
  qed
  then have f3: "files w3 BitsJson = files w BitsJson"
    using files_py_input f2 by simp
  have yes: "lower (strip confirm) \<noteq> ''n''"
  proof
    assume "lower (strip confirm) = ''n''"
    with m r p have "main E w = (SystemExit (Status 0), w3)" by simp
    with f3 assms show False by simp
  qed
  with m r p have "main E w = add_bit E bit1 w3" by simp
  moreover from key have "api_key E \<noteq> None" "api_key E \<noteq> Some []" by simp_all
  ultimately show ?thesis
    using g nonblank s o r p yes f3 by blast
qed

lemma demo_run_start:
  "\<not> (api_key demo_env = None \<or> api_key demo_env = Some [])"
  "get_user_input (demo_world (''Example'' # [] # rest) n) = (''Example'', demo_world rest n)"
  "strip ''Example'' \<noteq> []"
  "structure_with_claude demo_env ''Example'' = Return demo_bit"
  by (simp_all add: demo_env_fields get_user_input_def demo_world_def demo_answers
      structure_with_claude_def)

lemma demo_edit_saved:
  "editor demo_env (editor_count (demo_world ls 1)) (json_dumps demo_env demo_bit @ nl) =
     (True, demo_bit_text @ nl)"
  "json_loads demo_env (demo_bit_text @ nl) = Some demo_bit"
  by (simp_all add: demo_simps)

lemma demo_edit_broken:
  "editor demo_env (editor_count (demo_world ls 0)) (json_dumps demo_env demo_bit @ nl) =
     (True, ''{'')"
  "json_loads demo_env ''{'' = None"
  by (simp_all add: demo_simps)

lemma demo_store:
  "files (demo_world ls n) BitsJson = Some (demo_store_text @ nl)"
  "json_loads demo_env (demo_store_text @ nl) = Some (JArr [demo_older])"
  "map_of [(''title'', JStr ''Example''), (''url'', JStr []), (''tags'', JArr [])] ''title'' =
     Some (JStr ''Example'')"
  "json_dumps demo_env (JArr [JObj [(''title'', JStr ''Example''),
      (''id'', JStr ''example-1700000000000''), (''date'', JStr ''2023-11-14'')], demo_older]) =
     demo_new_store_text"
  using demo_texts(1) by (simp_all add: demo_simps demo_final_def)

text \<open>The example run in which the user saves the bit as it is and confirms with \<^verbatim>\<open>y\<close>.\<close>

lemma demo_confirmed_run:
  "files (snd (main demo_env (demo_world [''Example'', [], ''y''] 1))) BitsJson =
     Some (demo_new_store_text @ nl)"
proof -
  define W2 where "W2 = snd (open_in_editor demo_env demo_bit (demo_world [''y''] 1))"
  note o = open_in_editor_valid[OF demo_written demo_edit_saved, of "[''y'']"]
  have o': "open_in_editor demo_env demo_bit (demo_world [''y''] 1) = (Return demo_bit, W2)"
    by (simp only: W2_def o snd_conv)
  have W2_stdin: "stdin W2 = [''y'']"
    and W2_store: "files W2 BitsJson = Some (demo_store_text @ nl)"
    unfolding W2_def o snd_conv by (simp_all add: after_editor_fields demo_world_def)
  have p: "py_input W2 = Some (''y'', W2\<lparr>stdin := []\<rparr>)"
    by (simp add: py_input_def W2_stdin)
  have m: "main demo_env (demo_world [''Example'', [], ''y''] 1) =
      add_bit demo_env demo_bit (W2\<lparr>stdin := []\<rparr>)"
    unfolding main_after_structuring[OF demo_run_start o'] by (simp add: p demo_answers)
  have store: "files (W2\<lparr>stdin := []\<rparr>) BitsJson = Some (demo_store_text @ nl)"
    using W2_store by simp
  show ?thesis
    unfolding m demo_bit_def
    using add_bit_writes[OF store demo_store(2,3), unfolded demo_record demo_store(4)] .
qed

theorem store_written_only_after_confirmation_witness:
  "files (snd (main demo_env (demo_world [''Example'', [], ''y''] 1))) BitsJson =
     Some (demo_new_store_text @ nl) \<and>
   files (demo_world [''Example'', [], ''y''] 1) BitsJson = Some (demo_store_text @ nl) \<and>
   (\<exists>typed w1 bit0 bit1 w2 confirm w3.
     api_key demo_env \<noteq> None \<and> api_key demo_env \<noteq> Some [] \<and>
     get_user_input (demo_world [''Example'', [], ''y''] 1) = (typed, w1) \<and>
     strip typed \<noteq> [] \<and>
     structure_with_claude demo_env typed = Return bit0 \<and>
     open_in_editor demo_env bit0 w1 = (Return bit1, w2) \<and>
     py_input w2 = Some (confirm, w3) \<and> lower (strip confirm) \<noteq> ''n'' \<and>
     main demo_env (demo_world [''Example'', [], ''y''] 1) = add_bit demo_env bit1 w3 \<and>
     files w3 BitsJson = files (demo_world [''Example'', [], ''y''] 1) BitsJson)"
proof -
  have before: "files (demo_world [''Example'', [], ''y''] 1) BitsJson =
      Some (demo_store_text @ nl)"
    by (rule demo_store(1))
  have "files (snd (main demo_env (demo_world [''Example'', [], ''y''] 1))) BitsJson \<noteq>
      files (demo_world [''Example'', [], ''y''] 1) BitsJson"
    unfolding demo_confirmed_run before using demo_texts(2) by simp
  from store_written_only_after_confirmation[OF this] demo_confirmed_run before
  show ?thesis by (intro conjI)
qed

text \<open>
  C8. The claim says every abort by the user ends the process with exit code 0, the
  refusal to re-edit after a parse failure included. Answering \<^verbatim>\<open>n\<close> at "Add this bit?"
  makes \<^verbatim>\<open>main\<close> print "Aborted." and call \<^verbatim>\<open>sys.exit(0)\<close>. Answering \<^verbatim>\<open>n\<close> at "Re-edit?"
  makes \<^verbatim>\<open>open_in_editor\<close> raise \<^verbatim>\<open>SystemExit("Aborted")\<close>, which \<^verbatim>\<open>main\<close> does not catch,
  and the process ends with exit code 1. The two runs below have the same input and
  differ in what the editor saves: a lone brace in the first, the bit as it is in the
  second.
\<close>

theorem edit_loop_abort_exits_with_1:
  "fst (main demo_env (demo_world [''Example'', [], ''n''] 0)) =
     SystemExit (Message ''Aborted'') \<and>
   exit_status (fst (main demo_env (demo_world [''Example'', [], ''n''] 0))) = 1 \<and>
   fst (main demo_env (demo_world [''Example'', [], ''n''] 1)) = SystemExit (Status 0) \<and>
   exit_status (fst (main demo_env (demo_world [''Example'', [], ''n''] 1))) = 0"
proof -
  have stdin: "stdin (demo_world [''n''] 0) = ''n'' # []" by (simp add: demo_world_def)
  have "fst (open_in_editor demo_env demo_bit (demo_world [''n''] 0)) =
      SystemExit (Message ''Aborted'')"
    using open_in_editor_abort[OF demo_written demo_edit_broken stdin]
    by (simp add: demo_answers)
  then obtain w2 where o: "open_in_editor demo_env demo_bit (demo_world [''n''] 0) =
      (SystemExit (Message ''Aborted''), w2)"
    by (cases "open_in_editor demo_env demo_bit (demo_world [''n''] 0)") simp
  have m: "main demo_env (demo_world [''Example'', [], ''n''] 0) =
      (SystemExit (Message ''Aborted''), w2)"
    unfolding main_after_structuring[OF demo_run_start o] by simp
  define W2 where "W2 = snd (open_in_editor demo_env demo_bit (demo_world [''n''] 1))"
  note saved = open_in_editor_valid[OF demo_written demo_edit_saved, of "[''n'']"]
  have o': "open_in_editor demo_env demo_bit (demo_world [''n''] 1) = (Return demo_bit, W2)"
    by (simp only: W2_def saved snd_conv)
  have "stdin W2 = [''n'']"
    unfolding W2_def saved snd_conv by (simp add: after_editor_fields demo_world_def)
  then have p: "py_input W2 = Some (''n'', W2\<lparr>stdin := []\<rparr>)"
    by (simp add: py_input_def)
  have m': "main demo_env (demo_world [''Example'', [], ''n''] 1) =
      (SystemExit (Status 0), W2\<lparr>stdin := []\<rparr>)"
    unfolding main_after_structuring[OF demo_run_start o'] by (simp add: p demo_answers)
  show ?thesis unfolding m m' by simp
qed

end
